theory Spec2Isabelle
  imports Main
begin

section \<open>The sink folder service of FitTrackee\<close>

text \<open>
  A shallow embedding of \<^verbatim>\<open>fittrackee/workouts/services/sink_folder_service.py\<close>:
  the path parser \<^verbatim>\<open>_parse_file_path\<close>, the routing functions \<^verbatim>\<open>_move_file\<close>,
  \<^verbatim>\<open>_move_to_error\<close> and \<^verbatim>\<open>_move_to_processed\<close>, the per-file driver
  \<^verbatim>\<open>_process_file\<close>, the event handler \<^verbatim>\<open>on_created\<close> and the sweep
  \<^verbatim>\<open>process_existing_files\<close>.

  Python strings are modelled as \<open>string\<close>, with ASCII characters; integers as \<open>int\<close>.
  Paths are POSIX paths (separator \<open>/\<close>).
\<close>

subsection \<open>Module constants\<close>

definition DEFAULT_SPORT_ID :: int where
  "DEFAULT_SPORT_ID = 1"

definition SINK_FOLDER_NAME :: string where
  "SINK_FOLDER_NAME = ''sink''"

definition PROCESSED_FOLDER_NAME :: string where
  "PROCESSED_FOLDER_NAME = ''processed''"

definition ERROR_FOLDER_NAME :: string where
  "ERROR_FOLDER_NAME = ''error''"

subsection \<open>Exceptions\<close>

text \<open>
  The exceptions the service meets, each with the text \<^verbatim>\<open>str(e)\<close> gives. All of them
  are subclasses of \<^verbatim>\<open>Exception\<close>, so every \<^verbatim>\<open>except Exception\<close> clause catches them.
\<close>

datatype exn = ValueError string | OSError string | ShutilError string | ServiceError string

fun str_exn :: "exn \<Rightarrow> string" where
  "str_exn (ValueError m) = m"
| "str_exn (OSError m) = m"
| "str_exn (ShutilError m) = m"
| "str_exn (ServiceError m) = m"

subsection \<open>Library functions on strings\<close>

text \<open>\<^verbatim>\<open>s.split(c)\<close> for a one-character separator: never empty, keeps empty fields.\<close>

fun split_on :: "char \<Rightarrow> string \<Rightarrow> string list" where
  "split_on c [] = [[]]"
| "split_on c (x # xs) =
     (if x = c then [] # split_on c xs
      else (case split_on c xs of
              w # ws \<Rightarrow> (x # w) # ws
            | [] \<Rightarrow> [[x]]))"

text \<open>\<^verbatim>\<open>xs.index(x)\<close>: the first position of \<open>x\<close>; \<open>None\<close> stands for ValueError.\<close>

fun index_of :: "'a \<Rightarrow> 'a list \<Rightarrow> nat option" where
  "index_of x [] = None"
| "index_of x (y # ys) = (if y = x then Some 0 else map_option Suc (index_of x ys))"

text \<open>\<^verbatim>\<open>s.rfind(c)\<close>: the last position of \<open>c\<close>; \<open>None\<close> stands for the result \<open>-1\<close>.\<close>

fun rfind :: "char \<Rightarrow> string \<Rightarrow> nat option" where
  "rfind c [] = None"
| "rfind c (x # xs) =
     (case rfind c xs of
        Some i \<Rightarrow> Some (Suc i)
      | None \<Rightarrow> if x = c then Some 0 else None)"

definition is_upper :: "char \<Rightarrow> bool" where
  "is_upper c = (65 \<le> (of_char c :: nat) \<and> (of_char c :: nat) \<le> 90)"

text \<open>\<^verbatim>\<open>s.lower()\<close> on ASCII text.\<close>

definition lower :: "string \<Rightarrow> string" where
  "lower s = map (\<lambda>c. if is_upper c then char_of ((of_char c :: nat) + 32) else c) s"

definition is_digit :: "char \<Rightarrow> bool" where
  "is_digit c = (48 \<le> (of_char c :: nat) \<and> (of_char c :: nat) \<le> 57)"

text \<open>White space as \<^verbatim>\<open>int()\<close> strips it: TAB, LF, VT, FF, CR, FS, GS, RS, US and space.\<close>

definition is_space :: "char \<Rightarrow> bool" where
  "is_space c = (let n = (of_char c :: nat) in (9 \<le> n \<and> n \<le> 13) \<or> (28 \<le> n \<and> n \<le> 32))"

definition strip :: "string \<Rightarrow> string" where
  "strip s = rev (dropWhile is_space (rev (dropWhile is_space s)))"

definition digits_value :: "string \<Rightarrow> nat" where
  "digits_value ds = foldl (\<lambda>acc c. 10 * acc + ((of_char c :: nat) - 48)) 0 ds"

text \<open>
  \<^verbatim>\<open>int(s)\<close> in base ten: white space around, an optional sign, then groups of
  decimal digits separated by single underscores. \<open>None\<close> stands for ValueError.
  Digits outside ASCII and the interpreter's limit on the number of digits are not
  modelled.
\<close>

definition py_int :: "string \<Rightarrow> int option" where
  "py_int s =
     (let t = strip s;
          neg = (t \<noteq> [] \<and> hd t = CHR ''-'');
          body = (if t \<noteq> [] \<and> (hd t = CHR ''-'' \<or> hd t = CHR ''+'') then tl t else t);
          groups = split_on CHR ''_'' body
      in if list_all (\<lambda>g. g \<noteq> [] \<and> list_all is_digit g) groups
         then Some (if neg then - int (digits_value (concat groups))
                    else int (digits_value (concat groups)))
         else None)"

subsection \<open>Library functions on paths\<close>

text \<open>
  The root of a POSIX path as \<^verbatim>\<open>pathlib\<close> reads it: exactly two leading slashes are
  kept apart, one or more than two make the root \<open>/\<close>.
\<close>

definition path_root :: "string \<Rightarrow> string" where
  "path_root p =
     (if take 2 p = ''//'' \<and> take 3 p \<noteq> ''///'' then ''//''
      else if take 1 p = ''/'' then ''/''
      else [])"

text \<open>
  \<^verbatim>\<open>Path(p).parts\<close>: the root when there is one, then the segments between slashes,
  without the empty ones and without \<open>.\<close> (\<open>..\<close> is kept).
\<close>

definition parts :: "string \<Rightarrow> string list" where
  "parts p =
     (if path_root p = [] then [] else [path_root p]) @
     filter (\<lambda>s. s \<noteq> [] \<and> s \<noteq> ''.'') (split_on CHR ''/'' p)"

subsection \<open>Users\<close>

record user =
  username :: string
  suspended_at :: "nat option"

subsection \<open>The path parser\<close>

text \<open>
  \<^verbatim>\<open>_parse_file_path\<close>. The table of users stands for
  \<^verbatim>\<open>User.query.filter_by(username=username).first()\<close>: the user of that name, or
  \<open>None\<close>. \<open>Inl\<close> is the ValueError the function raises.
\<close>

definition parse_file_path :: "(string \<rightharpoonup> user) \<Rightarrow> string \<Rightarrow> exn + (user option \<times> int)" where
  "parse_file_path users file_path =
     (case index_of SINK_FOLDER_NAME (parts file_path) of
        None \<Rightarrow> Inl (ValueError ([CHR 0x27] @ SINK_FOLDER_NAME @ [CHR 0x27] @ '' not found in path''))
      | Some sink_index \<Rightarrow>
          (let remaining_parts = drop (sink_index + 1) (parts file_path) in
           if length remaining_parts < 2
           then Inl (ValueError
             ''Invalid path structure. Expected: sink/username/file or sink/username/sport_id/file'')
           else
             (let uname = remaining_parts ! 0;
                  sport_id =
                    (if length remaining_parts = 2 then DEFAULT_SPORT_ID
                     else if length remaining_parts = 3 then
                       (case py_int (remaining_parts ! 1) of
                          Some n \<Rightarrow> n
                        | None \<Rightarrow> DEFAULT_SPORT_ID)
                     else DEFAULT_SPORT_ID)
              in Inr (users uname, sport_id))))"

subsection \<open>More library functions\<close>

text \<open>\<^verbatim>\<open>os.path.join\<close>: a component that starts with a slash replaces what came before.\<close>

definition join2 :: "string \<Rightarrow> string \<Rightarrow> string" where
  "join2 a b =
     (if take 1 b = ''/'' then b
      else if a = [] \<or> last a = CHR ''/'' then a @ b
      else a @ ''/'' @ b)"

definition os_path_join :: "string \<Rightarrow> string list \<Rightarrow> string" where
  "os_path_join a bs = foldl join2 a bs"

text \<open>\<^verbatim>\<open>Path(p).name\<close>: the last part, or the empty string when there is only a root.\<close>

definition path_name :: "string \<Rightarrow> string" where
  "path_name p =
     (if length (parts p) = (if path_root p = [] then 0 else 1) then []
      else last (parts p))"

text \<open>\<^verbatim>\<open>Path(p).suffix\<close>: from the last dot of the name, unless the dot is first or last.\<close>

definition path_suffix :: "string \<Rightarrow> string" where
  "path_suffix p =
     (case rfind CHR ''.'' (path_name p) of
        None \<Rightarrow> []
      | Some i \<Rightarrow> if 0 < i \<and> i < length (path_name p) - 1 then drop i (path_name p) else [])"

text \<open>The expression \<^verbatim>\<open>Path(p).suffix.lower().lstrip(".")\<close> of the handler and of the sweep.\<close>

definition extension_of :: "string \<Rightarrow> string" where
  "extension_of p = dropWhile (\<lambda>c. c = CHR ''.'') (lower (path_suffix p))"

text \<open>
  \<^verbatim>\<open>os.path.splitext\<close>: the extension starts at the last dot after the last slash,
  when a character other than a dot stands before it in the file name.
\<close>

definition splitext :: "string \<Rightarrow> string \<times> string" where
  "splitext p =
     (case rfind CHR ''.'' p of
        None \<Rightarrow> (p, [])
      | Some d \<Rightarrow>
          (let start = (case rfind CHR ''/'' p of None \<Rightarrow> 0 | Some i \<Rightarrow> i + 1) in
           if start \<le> d \<and> list_ex (\<lambda>c. c \<noteq> CHR ''.'') (take (d - start) (drop start p))
           then (take d p, drop d p)
           else (p, [])))"

text \<open>\<^verbatim>\<open>str(n)\<close> for a natural number and for an integer.\<close>

fun str_nat :: "nat \<Rightarrow> string" where
  "str_nat n =
     (if n < 10 then [''0123456789'' ! n]
      else str_nat (n div 10) @ [''0123456789'' ! (n mod 10)])"

declare str_nat.simps [simp del]

definition str_int :: "int \<Rightarrow> string" where
  "str_int i = (if i < 0 then ''-'' @ str_nat (nat (- i)) else str_nat (nat i))"

definition newline :: char where
  "newline = CHR 0x0A"

subsection \<open>The clock\<close>

text \<open>A reading of \<^verbatim>\<open>datetime.now(tz=timezone.utc)\<close>.\<close>

record datetime =
  year :: nat
  month :: nat
  day :: nat
  hour :: nat
  minute :: nat
  second :: nat
  microsecond :: nat

definition zero_pad :: "nat \<Rightarrow> nat \<Rightarrow> string" where
  "zero_pad w n = replicate (w - length (str_nat n)) CHR ''0'' @ str_nat n"

text \<open>\<^verbatim>\<open>strftime("%Y%m%d_%H%M%S")\<close>: resolution of one second.\<close>

definition strftime :: "datetime \<Rightarrow> string" where
  "strftime t =
     zero_pad 4 (year t) @ zero_pad 2 (month t) @ zero_pad 2 (day t) @ ''_'' @
     zero_pad 2 (hour t) @ zero_pad 2 (minute t) @ zero_pad 2 (second t)"

text \<open>\<^verbatim>\<open>isoformat()\<close> of a reading in UTC; the microseconds are left out when zero.\<close>

definition isoformat :: "datetime \<Rightarrow> string" where
  "isoformat t =
     zero_pad 4 (year t) @ ''-'' @ zero_pad 2 (month t) @ ''-'' @ zero_pad 2 (day t) @ ''T'' @
     zero_pad 2 (hour t) @ '':'' @ zero_pad 2 (minute t) @ '':'' @ zero_pad 2 (second t) @
     (if microsecond t = 0 then [] else ''.'' @ zero_pad 6 (microsecond t)) @ ''+00:00''"

subsection \<open>The file system\<close>

text \<open>
  A file system maps a path, as the program spells it, to a regular file with its
  content or to a directory. Two spellings of one path are not identified, and links,
  permissions and devices are not modelled.
\<close>

datatype node = RegularFile string | Directory

type_synonym filesystem = "string \<rightharpoonup> node"

text \<open>The directory prefixes of a path, shortest first, and the path itself last.\<close>

definition path_prefixes :: "string \<Rightarrow> string list" where
  "path_prefixes p =
     map (\<lambda>i. take i p) (filter (\<lambda>i. i = length p \<or> p ! i = CHR ''/'') [1..<Suc (length p)])"

definition is_regular :: "filesystem \<Rightarrow> string \<Rightarrow> bool" where
  "is_regular fs p = (case fs p of Some (RegularFile c) \<Rightarrow> True | _ \<Rightarrow> False)"

text \<open>
  \<^verbatim>\<open>os.makedirs(p, exist_ok=True)\<close>: raises when the path or one of its prefixes is a
  regular file, and then has created nothing; otherwise every prefix is a directory
  afterwards.
\<close>

definition makedirs :: "string \<Rightarrow> filesystem \<Rightarrow> exn + filesystem" where
  "makedirs p fs =
     (if list_ex (is_regular fs) (path_prefixes p)
      then Inl (OSError (''[Errno 20] Not a directory: '' @ p))
      else Inr (foldl (\<lambda>f q. f(q \<mapsto> Directory)) fs (path_prefixes p)))"

definition path_exists :: "string \<Rightarrow> filesystem \<Rightarrow> bool" where
  "path_exists p fs = (fs p \<noteq> None)"

text \<open>
  \<^verbatim>\<open>os.rename\<close> of a regular file, which replaces a regular file at the destination.
  Moving a directory is not modelled: the service moves created files and the files a
  directory walk lists. The service calls it after \<^verbatim>\<open>os.makedirs\<close> on the destination
  folder has returned, so a missing destination folder is not modelled either.
\<close>

definition os_rename :: "string \<Rightarrow> string \<Rightarrow> filesystem \<Rightarrow> exn + filesystem" where
  "os_rename src dst fs =
     (case fs src of
        None \<Rightarrow> Inl (OSError (''[Errno 2] No such file or directory: '' @ src))
      | Some Directory \<Rightarrow> Inl (OSError (''[Errno 21] Is a directory: '' @ src))
      | Some (RegularFile c) \<Rightarrow> Inr ((fs(src := None))(dst \<mapsto> RegularFile c)))"

text \<open>
  \<^verbatim>\<open>shutil.move\<close>: a destination that is a directory receives the file under its own
  name, unless something of that name is there already.
\<close>

definition shutil_move :: "string \<Rightarrow> string \<Rightarrow> filesystem \<Rightarrow> exn + filesystem" where
  "shutil_move src dst fs =
     (case fs dst of
        Some Directory \<Rightarrow>
          (let real_dst = join2 dst (path_name src) in
           if path_exists real_dst fs
           then Inl (ShutilError (''Destination path '' @ real_dst @ '' already exists''))
           else os_rename src real_dst fs)
      | _ \<Rightarrow> os_rename src dst fs)"

text \<open>\<^verbatim>\<open>open(p, "rb").read()\<close>.\<close>

definition read_file :: "string \<Rightarrow> filesystem \<Rightarrow> exn + string" where
  "read_file p fs =
     (case fs p of
        None \<Rightarrow> Inl (OSError (''[Errno 2] No such file or directory: '' @ p))
      | Some Directory \<Rightarrow> Inl (OSError (''[Errno 21] Is a directory: '' @ p))
      | Some (RegularFile c) \<Rightarrow> Inr c)"

text \<open>\<^verbatim>\<open>open(p, "w").write(text)\<close>: creates the file or replaces its content.\<close>

definition write_file :: "string \<Rightarrow> string \<Rightarrow> filesystem \<Rightarrow> exn + filesystem" where
  "write_file p content fs =
     (case fs p of
        Some Directory \<Rightarrow> Inl (OSError (''[Errno 21] Is a directory: '' @ p))
      | _ \<Rightarrow> Inr (fs(p \<mapsto> RegularFile content)))"

subsection \<open>The application around the service\<close>

record workout =
  short_id :: string
  sport_label :: string

text \<open>
  What \<^verbatim>\<open>WorkoutsFromFileCreationService(...).process()\<close> does: it raises, or it returns
  the workouts it created and its output, of which the service reads
  \<^verbatim>\<open>str(processing_output.get("errored_workouts", {}))\<close>.
\<close>

datatype service_result = Raises exn | Result "workout list" string

text \<open>
  The application: the configured upload folder, the tables of users and of sports (a
  sport id with its label), the clock (its n-th reading), the import service (called with
  the user, the sport id, the file name and the content) and
  \<^verbatim>\<open>WORKOUT_ALLOWED_EXTENSIONS\<close>, a constant of another module.
\<close>

record env =
  upload_folder :: string
  user_table :: "string \<rightharpoonup> user"
  sport_table :: "int \<rightharpoonup> string"
  clock :: "nat \<Rightarrow> datetime"
  service :: "user \<Rightarrow> int \<Rightarrow> string \<Rightarrow> string \<Rightarrow> service_result"
  allowed_extensions :: "string list"

datatype level = DEBUG | INFO | WARNING | ERROR

text \<open>
  What the service changes: the file system, the log, the number of clock readings made
  and the number of calls of \<^verbatim>\<open>db.session.rollback()\<close>.
\<close>

record state =
  files :: filesystem
  logged :: "(level \<times> string) list"
  ticks :: nat
  rollbacks :: nat

datatype outcome = Returned | Raised exn

definition log_msg :: "level \<Rightarrow> string \<Rightarrow> state \<Rightarrow> state" where
  "log_msg l m st = st\<lparr>logged := logged st @ [(l, m)]\<rparr>"

subsection \<open>Routing a file\<close>

definition get_sink_folder :: "env \<Rightarrow> string" where
  "get_sink_folder e = os_path_join (upload_folder e) [SINK_FOLDER_NAME]"

text \<open>
  \<^verbatim>\<open>_move_file\<close>. The call of \<^verbatim>\<open>os.makedirs\<close> stands outside the \<^verbatim>\<open>try\<close>, so its
  exception leaves the function; the exception of \<^verbatim>\<open>shutil.move\<close> is logged.
\<close>

definition move_file :: "env \<Rightarrow> string \<Rightarrow> string \<Rightarrow> string \<Rightarrow> state \<Rightarrow> outcome \<times> state" where
  "move_file e file_path dest_type uname st =
     (let sink_folder = get_sink_folder e;
          dest_folder = os_path_join sink_folder [dest_type, uname]
      in case makedirs dest_folder (files st) of
           Inl ex \<Rightarrow> (Raised ex, st)
         | Inr fs1 \<Rightarrow>
             (let st1 = st\<lparr>files := fs1\<rparr>;
                  filename = path_name file_path;
                  dest_path = os_path_join dest_folder [filename];
                  collision = path_exists dest_path fs1;
                  timestamp = strftime (clock e (ticks st1));
                  dest_path2 =
                    (if collision
                     then os_path_join dest_folder
                            [fst (splitext filename) @ ''_'' @ timestamp @ snd (splitext filename)]
                     else dest_path);
                  st2 = (if collision then st1\<lparr>ticks := ticks st1 + 1\<rparr> else st1)
              in case shutil_move file_path dest_path2 (files st2) of
                   Inr fs2 \<Rightarrow>
                     (Returned,
                      log_msg DEBUG (''Moved '' @ file_path @ '' to '' @ dest_path2)
                        (st2\<lparr>files := fs2\<rparr>))
                 | Inl ex \<Rightarrow>
                     (Returned,
                      log_msg ERROR
                        (''Failed to move file '' @ file_path @ '': '' @ str_exn ex) st2)))"

definition move_to_processed :: "env \<Rightarrow> string \<Rightarrow> string \<Rightarrow> state \<Rightarrow> outcome \<times> state" where
  "move_to_processed e file_path uname st =
     move_file e file_path PROCESSED_FOLDER_NAME uname st"

text \<open>
  The user name \<^verbatim>\<open>_move_to_error\<close> reads from the path (its first \<^verbatim>\<open>try\<close> block): the
  part after \<open>sink\<close> when there is one, whatever follows it, else \<open>unknown\<close>.
\<close>

definition error_username :: "string \<Rightarrow> string" where
  "error_username file_path =
     (case index_of SINK_FOLDER_NAME (parts file_path) of
        None \<Rightarrow> ''unknown''
      | Some sink_index \<Rightarrow>
          if length (parts file_path) > sink_index + 1
          then parts file_path ! (sink_index + 1)
          else ''unknown'')"

text \<open>
  \<^verbatim>\<open>_move_to_error\<close>: the move first, outside any \<^verbatim>\<open>try\<close>; then the companion file,
  whose every failure is logged as a warning.
\<close>

definition move_to_error :: "env \<Rightarrow> string \<Rightarrow> string \<Rightarrow> state \<Rightarrow> outcome \<times> state" where
  "move_to_error e file_path error_msg st =
     (let uname = error_username file_path in
      case move_file e file_path ERROR_FOLDER_NAME uname st of
        (Raised ex, st1) \<Rightarrow> (Raised ex, st1)
      | (Returned, st1) \<Rightarrow>
          (let timestamp = isoformat (clock e (ticks st1));
               st2 = st1\<lparr>ticks := ticks st1 + 1\<rparr>;
               error_content =
                 ''Timestamp: '' @ timestamp @ [newline] @ ''Error: '' @ error_msg @ [newline];
               sink_folder = get_sink_folder e;
               dest_folder = os_path_join sink_folder [ERROR_FOLDER_NAME, uname]
           in case makedirs dest_folder (files st2) of
                Inl ex \<Rightarrow>
                  (Returned, log_msg WARNING (''Failed to write error file: '' @ str_exn ex) st2)
              | Inr fs1 \<Rightarrow>
                  (let filename = path_name file_path;
                       error_dest = os_path_join dest_folder [filename @ ''.error'']
                   in case write_file error_dest error_content fs1 of
                        Inl ex \<Rightarrow>
                          (Returned,
                           log_msg WARNING (''Failed to write error file: '' @ str_exn ex)
                             (st2\<lparr>files := fs1\<rparr>))
                      | Inr fs2 \<Rightarrow> (Returned, st2\<lparr>files := fs2\<rparr>))))"

subsection \<open>Processing one file\<close>

text \<open>
  The \<^verbatim>\<open>try\<close> block of \<^verbatim>\<open>_process_file\<close> around the import service. The calls of
  \<^verbatim>\<open>_move_to_processed\<close> and \<^verbatim>\<open>_move_to_error\<close> stand inside it.
\<close>

definition import_workout ::
  "env \<Rightarrow> string \<Rightarrow> user \<Rightarrow> int \<Rightarrow> string \<Rightarrow> state \<Rightarrow> outcome \<times> state" where
  "import_workout e file_path usr sport_id content st =
     (case service e usr sport_id (path_name file_path) content of
        Raises ex \<Rightarrow> (Raised ex, st)
      | Result workouts errored \<Rightarrow>
          (case workouts of
             w # ws \<Rightarrow>
               move_to_processed e file_path (username usr)
                 (log_msg INFO
                    (''Successfully imported workout for user '' @ username usr @ '': '' @
                     short_id w @ '' ('' @ sport_label w @ '')'') st)
           | [] \<Rightarrow>
               move_to_error e file_path errored
                 (log_msg ERROR (''Failed to create workout: '' @ errored) st)))"

text \<open>\<^verbatim>\<open>_process_file\<close>.\<close>

definition process_file :: "env \<Rightarrow> string \<Rightarrow> state \<Rightarrow> outcome \<times> state" where
  "process_file e file_path st =
     (let st0 = log_msg INFO (''Processing file: '' @ file_path) st in
      case parse_file_path (user_table e) file_path of
        Inl ex \<Rightarrow>
          move_to_error e file_path (str_exn ex)
            (log_msg ERROR (''Failed to parse file path: '' @ str_exn ex) st0)
      | Inr (None, sport_id) \<Rightarrow>
          move_to_error e file_path ''Could not determine user''
            (log_msg ERROR (''Could not determine user for file: '' @ file_path) st0)
      | Inr (Some usr, sport_id) \<Rightarrow>
          (case sport_table e sport_id of
             None \<Rightarrow>
               move_to_error e file_path (''Sport ID '' @ str_int sport_id @ '' not found'')
                 (log_msg ERROR (''Sport ID '' @ str_int sport_id @ '' not found'') st0)
           | Some sport \<Rightarrow>
               if suspended_at usr \<noteq> None
               then move_to_error e file_path (''User '' @ username usr @ '' is suspended'')
                      (log_msg ERROR (''User '' @ username usr @ '' is suspended'') st0)
               else
                 (case read_file file_path (files st0) of
                    Inl ex \<Rightarrow>
                      move_to_error e file_path (str_exn ex)
                        (log_msg ERROR (''Failed to read file: '' @ str_exn ex) st0)
                  | Inr content \<Rightarrow>
                      (case import_workout e file_path usr sport_id content st0 of
                         (Returned, st1) \<Rightarrow> (Returned, st1)
                       | (Raised ex, st1) \<Rightarrow>
                           move_to_error e file_path (str_exn ex)
                             (log_msg ERROR (''Error processing workout: '' @ str_exn ex)
                                (st1\<lparr>rollbacks := rollbacks st1 + 1\<rparr>))))))"

subsection \<open>The event handler\<close>

record event =
  is_directory :: bool
  src_path :: string

text \<open>\<^verbatim>\<open>on_created\<close>. The pause of half a second changes nothing in the state.\<close>

definition on_created :: "env \<Rightarrow> event \<Rightarrow> state \<Rightarrow> outcome \<times> state" where
  "on_created e ev st =
     (if is_directory ev then (Returned, st)
      else if extension_of (src_path ev) \<notin> set (allowed_extensions e) then (Returned, st)
      else process_file e (src_path ev) st)"

subsection \<open>The sweep\<close>

text \<open>
  What \<^verbatim>\<open>os.walk\<close> lists in a directory: the names of its files and its
  subdirectories, each with what the walk lists in it. The walk reads a directory when
  it reaches it; the files the sweep moves on the way go below the directories
  \<open>processed\<close> and \<open>error\<close> of the sink folder, which the walk does not enter, so the
  listing is taken as fixed during the sweep.
\<close>

datatype dtree = DTree "string list" "(string \<times> dtree) list"

text \<open>The inner loop of \<^verbatim>\<open>process_existing_files\<close>, over the files of one directory.\<close>

fun sweep_files :: "env \<Rightarrow> string \<Rightarrow> string list \<Rightarrow> nat \<Rightarrow> state \<Rightarrow> outcome \<times> nat \<times> state" where
  "sweep_files e root [] count st = (Returned, count, st)"
| "sweep_files e root (filename # rest) count st =
     (if extension_of filename \<in> set (allowed_extensions e)
      then
        (let file_path = os_path_join root [filename] in
         case process_file e file_path
                (log_msg INFO (''Processing existing file: '' @ file_path) st) of
           (Raised ex, st1) \<Rightarrow> (Raised ex, count, st1)
         | (Returned, st1) \<Rightarrow> sweep_files e root rest (count + 1) st1)
      else sweep_files e root rest count st)"

text \<open>
  The outer loop: the walk from the top down. The subdirectories named \<open>processed\<close> or
  \<open>error\<close> are taken out of \<^verbatim>\<open>dirs\<close>, in every directory the walk reaches, and the
  walk enters the others in turn.
\<close>

fun walk :: "env \<Rightarrow> string \<Rightarrow> dtree \<Rightarrow> nat \<Rightarrow> state \<Rightarrow> outcome \<times> nat \<times> state"
  and walk_dirs ::
    "env \<Rightarrow> string \<Rightarrow> (string \<times> dtree) list \<Rightarrow> nat \<Rightarrow> state \<Rightarrow> outcome \<times> nat \<times> state" where
  "walk e root (DTree fnames dirs) count st =
     (case sweep_files e root fnames count st of
        (Raised ex, c, st1) \<Rightarrow> (Raised ex, c, st1)
      | (Returned, c, st1) \<Rightarrow> walk_dirs e root dirs c st1)"
| "walk_dirs e root [] count st = (Returned, count, st)"
| "walk_dirs e root ((d, t) # rest) count st =
     (if d \<in> set [PROCESSED_FOLDER_NAME, ERROR_FOLDER_NAME]
      then walk_dirs e root rest count st
      else
        (case walk e (os_path_join root [d]) t count st of
           (Raised ex, c, st1) \<Rightarrow> (Raised ex, c, st1)
         | (Returned, c, st1) \<Rightarrow> walk_dirs e root rest c st1))"

text \<open>\<^verbatim>\<open>process_existing_files\<close>: the count, or the exception that left the sweep.\<close>

definition process_existing_files :: "env \<Rightarrow> dtree \<Rightarrow> state \<Rightarrow> (exn + nat) \<times> state" where
  "process_existing_files e tree st =
     (case walk e (get_sink_folder e) tree 0 st of
        (Raised ex, c, st1) \<Rightarrow> (Inl ex, st1)
      | (Returned, c, st1) \<Rightarrow> (Inr c, st1))"

subsection \<open>Notions used to state the properties\<close>

text \<open>The folder below \<open>error\<close> that \<^verbatim>\<open>_move_to_error\<close> computes for a path.\<close>

definition error_folder :: "env \<Rightarrow> string \<Rightarrow> string" where
  "error_folder e file_path =
     os_path_join (get_sink_folder e) [ERROR_FOLDER_NAME, error_username file_path]"

text \<open>The content of the companion file for a message, at the clock reading of a state.\<close>

definition error_text :: "env \<Rightarrow> state \<Rightarrow> string \<Rightarrow> string" where
  "error_text e st msg =
     ''Timestamp: '' @ isoformat (clock e (ticks st)) @ [newline] @ ''Error: '' @ msg @ [newline]"

text \<open>Whether a text starts with another, and whether it contains another.\<close>

fun starts_with :: "string \<Rightarrow> string \<Rightarrow> bool" where
  "starts_with s [] = True"
| "starts_with [] (y # ys) = False"
| "starts_with (x # xs) (y # ys) = (x = y \<and> starts_with xs ys)"

fun contains :: "string \<Rightarrow> string \<Rightarrow> bool" where
  "contains [] sub = (sub = [])"
| "contains (x # xs) sub = (starts_with (x # xs) sub \<or> contains xs sub)"

text \<open>The lines of a text, as \<^verbatim>\<open>splitlines\<close> gives them for the line feed.\<close>

definition text_lines :: "string \<Rightarrow> string list" where
  "text_lines s =
     (if s \<noteq> [] \<and> last s = newline then split_on newline (butlast s)
      else if s = [] then [] else split_on newline s)"

text \<open>
  Processing the listed paths in turn as the sweep does: each is logged and handed to
  \<^verbatim>\<open>_process_file\<close>, the count grows by one, and an exception ends the run.
\<close>

fun run_files :: "env \<Rightarrow> string list \<Rightarrow> nat \<Rightarrow> state \<Rightarrow> outcome \<times> nat \<times> state" where
  "run_files e [] count st = (Returned, count, st)"
| "run_files e (file_path # rest) count st =
     (case process_file e file_path
             (log_msg INFO (''Processing existing file: '' @ file_path) st) of
        (Raised ex, st1) \<Rightarrow> (Raised ex, count, st1)
      | (Returned, st1) \<Rightarrow> run_files e rest (count + 1) st1)"

text \<open>
  Every file of a listing: the names of the directories that lead to it from the top, its
  name, and its path.
\<close>

fun all_files :: "string list \<Rightarrow> string \<Rightarrow> dtree \<Rightarrow> (string list \<times> string \<times> string) list"
  and all_files_dirs ::
    "string list \<Rightarrow> string \<Rightarrow> (string \<times> dtree) list \<Rightarrow> (string list \<times> string \<times> string) list" where
  "all_files chain root (DTree fnames dirs) =
     map (\<lambda>f. (chain, f, os_path_join root [f])) fnames @ all_files_dirs chain root dirs"
| "all_files_dirs chain root [] = []"
| "all_files_dirs chain root ((d, t) # rest) =
     all_files (chain @ [d]) (os_path_join root [d]) t @ all_files_dirs chain root rest"

text \<open>
  The files the sweep is to process, among the files of a listing: an allowed extension,
  and no directory named \<open>processed\<close> or \<open>error\<close> on the way. Their paths, in the
  order of the listing, are the targets.
\<close>

definition swept :: "env \<Rightarrow> string list \<times> string \<times> string \<Rightarrow> bool" where
  "swept e entry =
     (case entry of (chain, fname, path) \<Rightarrow>
        extension_of fname \<in> set (allowed_extensions e)
        \<and> PROCESSED_FOLDER_NAME \<notin> set chain \<and> ERROR_FOLDER_NAME \<notin> set chain)"

definition targets :: "env \<Rightarrow> (string list \<times> string \<times> string) list \<Rightarrow> string list" where
  "targets e entries = map (\<lambda>(chain, fname, path). path) (filter (swept e) entries)"

definition sweep_targets :: "env \<Rightarrow> dtree \<Rightarrow> string list" where
  "sweep_targets e tree = targets e (all_files [] (get_sink_folder e) tree)"

subsection \<open>An example installation\<close>

text \<open>
  The upload folder is \<open>/data\<close>, the only user is \<open>bob\<close>, the sports have ids 1 and 2,
  every reading of the clock is the same, and the import service creates
  one workout from every file.
\<close>

definition example_clock :: "nat \<Rightarrow> datetime" where
  "example_clock n =
     \<lparr>year = 2026, month = 11, day = 4, hour = 12, minute = 0, second = 30, microsecond = 0\<rparr>"

definition example_env :: env where
  "example_env =
     \<lparr>upload_folder = ''/data'',
      user_table = map_of [(''bob'', \<lparr>username = ''bob'', suspended_at = None\<rparr>)],
      sport_table = map_of [(1, ''Cycling''), (2, ''Running'')],
      clock = example_clock,
      service = (\<lambda>usr sport_id filename content.
                   Result [\<lparr>short_id = ''w1'', sport_label = ''Cycling''\<rparr>] ''{}''),
      allowed_extensions = [''fit'', ''gpx'', ''kml'', ''kmz'', ''tcx'']\<rparr>"

definition example_state :: "(string \<times> node) list \<Rightarrow> state" where
  "example_state entries = \<lparr>files = map_of entries, logged = [], ticks = 0, rollbacks = 0\<rparr>"

section \<open>Properties\<close>

subsection \<open>Lists and the file system\<close>

lemma index_of_first:
  "x \<notin> set pre \<Longrightarrow> index_of x (pre @ x # rem) = Some (length pre)"
  by (induction pre) auto

lemma index_of_None_iff: "index_of x xs = None \<longleftrightarrow> x \<notin> set xs"
  by (induction xs) auto

lemma foldl_mkdir_apply:
  "foldl (\<lambda>f q. f(q \<mapsto> Directory)) fs qs x = (if x \<in> set qs then Some Directory else fs x)"
  by (induction qs arbitrary: fs) auto

lemma makedirs_Inr_iff:
  "makedirs p fs = Inr fs1 \<longleftrightarrow>
     (\<not> list_ex (is_regular fs) (path_prefixes p) \<and>
      fs1 = (\<lambda>x. if x \<in> set (path_prefixes p) then Some Directory else fs x))"
  by (auto simp: makedirs_def foldl_mkdir_apply fun_eq_iff)

lemma makedirs_keeps_regular:
  assumes "makedirs p fs = Inr fs1" and "fs x = Some (RegularFile c)"
  shows "fs1 x = Some (RegularFile c)"
proof -
  have "\<not> list_ex (is_regular fs) (path_prefixes p)"
    using assms(1) by (simp add: makedirs_Inr_iff)
  moreover have "is_regular fs x" using assms(2) by (simp add: is_regular_def)
  ultimately have "x \<notin> set (path_prefixes p)" by (auto simp: list_ex_iff)
  then show ?thesis using assms by (simp add: makedirs_Inr_iff)
qed

lemma makedirs_again:
  assumes "makedirs p fs = Inr fs1"
    and "fs1 x = None" and "fs1 y = Some (RegularFile c)"
  shows "makedirs p ((fs1(y := None))(x \<mapsto> RegularFile c)) = Inr ((fs1(y := None))(x \<mapsto> RegularFile c))"
proof -
  let ?fs2 = "(fs1(y := None))(x \<mapsto> RegularFile c)"
  have f1: "fs1 = (\<lambda>z. if z \<in> set (path_prefixes p) then Some Directory else fs z)"
    using assms(1) by (simp add: makedirs_Inr_iff)
  have nx: "x \<notin> set (path_prefixes p)" using assms(2) f1 by (auto split: if_splits)
  have ny: "y \<notin> set (path_prefixes p)" using assms(3) f1 by (auto split: if_splits)
  have pre: "\<And>q. q \<in> set (path_prefixes p) \<Longrightarrow> ?fs2 q = Some Directory"
    using nx ny f1 by auto
  have "\<not> list_ex (is_regular ?fs2) (path_prefixes p)"
    using pre by (auto simp: list_ex_iff is_regular_def)
  moreover have "?fs2 = (\<lambda>z. if z \<in> set (path_prefixes p) then Some Directory else ?fs2 z)"
    using pre by (auto simp: fun_eq_iff)
  ultimately show ?thesis by (subst makedirs_Inr_iff) blast
qed

lemma join2_error_suffix: "join2 a (n @ ''.error'') = join2 a n @ ''.error''"
  by (cases n) (auto simp: join2_def)

lemma split_on_no_sep: "c \<notin> set s \<Longrightarrow> split_on c s = [s]"
  by (induction s) auto

lemma split_on_append:
  "c \<notin> set a \<Longrightarrow> split_on c (a @ c # b) = a # split_on c b"
  by (induction a) auto

lemma str_nat_digits: "set (str_nat n) \<subseteq> set ''0123456789''"
proof (induction n rule: str_nat.induct)
  case (1 n)
  have d: "''0123456789'' ! k \<in> set ''0123456789''" if "k < 10" for k
    using that by (intro nth_mem) simp
  show ?case
  proof (cases "n < 10")
    case True
    then show ?thesis using d [of n] by (subst str_nat.simps) simp
  next
    case False
    have "n mod 10 < 10" by simp
    with False 1 d [of "n mod 10"] show ?thesis
      by (subst str_nat.simps) simp
  qed
qed

lemma zero_pad_no_newline: "newline \<notin> set (zero_pad w n)"
  using str_nat_digits [of n] by (auto simp: zero_pad_def newline_def)

lemma isoformat_no_newline: "newline \<notin> set (isoformat t)"
  using zero_pad_no_newline by (auto simp: isoformat_def newline_def)

lemma error_text_lines:
  assumes "newline \<notin> set msg"
  shows "text_lines (error_text e st msg) =
           [''Timestamp: '' @ isoformat (clock e (ticks st)), ''Error: '' @ msg]"
proof -
  let ?a = "''Timestamp: '' @ isoformat (clock e (ticks st))"
  let ?b = "''Error: '' @ msg"
  have na: "newline \<notin> set ?a"
    using isoformat_no_newline by (auto simp: newline_def)
  have nb: "newline \<notin> set ?b"
    using assms by (auto simp: newline_def)
  have et: "error_text e st msg = (?a @ newline # ?b) @ [newline]"
    by (simp add: error_text_def)
  have "text_lines (error_text e st msg) = split_on newline (?a @ newline # ?b)"
    unfolding et text_lines_def by (simp only: butlast_snoc last_snoc) simp
  also have "\<dots> = ?a # split_on newline ?b"
    using na by (rule split_on_append)
  also have "\<dots> = [?a, ?b]"
    by (simp only: split_on_no_sep [OF nb])
  finally show ?thesis .
qed

lemma split_on_not_Nil: "split_on c p \<noteq> []"
  by (induction p) (auto split: list.splits)

lemma split_on_sep: "split_on c (y @ c # n) = split_on c y @ split_on c n"
  by (induction y) (auto simp: split_on_not_Nil split: list.splits)

lemma split_on_elems: "s \<in> set (split_on c p) \<Longrightarrow> c \<notin> set s"
  by (induction p arbitrary: s) (auto split: list.splits if_splits)

lemma path_name_last:
  assumes "filter (\<lambda>s. s \<noteq> [] \<and> s \<noteq> ''.'') (split_on CHR ''/'' p) \<noteq> []"
  shows "path_name p = last (filter (\<lambda>s. s \<noteq> [] \<and> s \<noteq> ''.'') (split_on CHR ''/'' p))"
  using assms by (auto simp: path_name_def parts_def)

lemma path_name_no_sep: "CHR ''/'' \<notin> set (path_name p)"
proof (cases "filter (\<lambda>s. s \<noteq> [] \<and> s \<noteq> ''.'') (split_on CHR ''/'' p) = []")
  case True
  then show ?thesis by (auto simp: path_name_def parts_def)
next
  case False
  then have "path_name p \<in> set (filter (\<lambda>s. s \<noteq> [] \<and> s \<noteq> ''.'') (split_on CHR ''/'' p))"
    unfolding path_name_last [OF False] by (rule last_in_set)
  then have "path_name p \<in> set (split_on CHR ''/'' p)" by simp
  then show ?thesis by (rule split_on_elems)
qed

lemma path_name_after_sep:
  assumes "CHR ''/'' \<notin> set n" and "n \<noteq> []" and "n \<noteq> ''.''"
  shows "path_name (y @ CHR ''/'' # n) = n"
proof -
  have "split_on CHR ''/'' (y @ CHR ''/'' # n) = split_on CHR ''/'' y @ [n]"
    using assms(1) by (simp add: split_on_sep split_on_no_sep)
  then have f: "filter (\<lambda>s. s \<noteq> [] \<and> s \<noteq> ''.'') (split_on CHR ''/'' (y @ CHR ''/'' # n))
      = filter (\<lambda>s. s \<noteq> [] \<and> s \<noteq> ''.'') (split_on CHR ''/'' y) @ [n]"
    using assms(2,3) by simp
  then show ?thesis
    by (subst path_name_last) simp_all
qed

lemma path_name_plain:
  assumes "CHR ''/'' \<notin> set n" and "n \<noteq> []" and "n \<noteq> ''.''"
  shows "path_name n = n"
proof -
  have "filter (\<lambda>s. s \<noteq> [] \<and> s \<noteq> ''.'') (split_on CHR ''/'' n) = [n]"
    using assms by (simp add: split_on_no_sep)
  then show ?thesis
    by (subst path_name_last) simp_all
qed

lemma path_name_join2:
  assumes "CHR ''/'' \<notin> set n" and "n \<noteq> []" and "n \<noteq> ''.''"
  shows "path_name (join2 a n) = n"
proof -
  have hd: "take 1 n \<noteq> ''/''"
    using assms(1,2) by (cases n) auto
  show ?thesis
  proof (cases "a = []")
    case True
    then show ?thesis using hd assms by (simp add: join2_def path_name_plain)
  next
    case False
    show ?thesis
    proof (cases "last a = CHR ''/''")
      case True
      with False obtain y where "a = y @ ''/''"
        by (metis append_butlast_last_id)
      then show ?thesis
        using hd True False path_name_after_sep [OF assms, of y] by (simp add: join2_def)
    next
      case nl: False
      then show ?thesis
        using hd False path_name_after_sep [OF assms, of a] by (simp add: join2_def)
    qed
  qed
qed

lemma source_is_not_companion:
  "p \<noteq> os_path_join folder [path_name p] @ ''.error''"
proof
  assume eq: "p = os_path_join folder [path_name p] @ ''.error''"
  let ?n = "path_name p @ ''.error''"
  have "CHR ''/'' \<notin> set ?n" "?n \<noteq> []" "?n \<noteq> ''.''"
    using path_name_no_sep [of p] by auto
  then have "path_name (join2 folder ?n) = ?n"
    by (rule path_name_join2)
  moreover have "join2 folder ?n = p"
    using eq by (simp add: os_path_join_def join2_error_suffix)
  ultimately have "path_name p = path_name p @ ''.error''"
    by simp
  then show False by simp
qed

subsection \<open>Routing\<close>

lemma move_file_plain:
  assumes "files st p = Some (RegularFile c)"
    and "makedirs (os_path_join (get_sink_folder e) [dest_type, uname]) (files st) = Inr fs1"
    and "fs1 (os_path_join (os_path_join (get_sink_folder e) [dest_type, uname]) [path_name p]) = None"
  shows "move_file e p dest_type uname st =
           (Returned,
            log_msg DEBUG
              (''Moved '' @ p @ '' to '' @
               os_path_join (os_path_join (get_sink_folder e) [dest_type, uname]) [path_name p])
              (st\<lparr>files := (fs1(p := None))
                 (os_path_join (os_path_join (get_sink_folder e) [dest_type, uname]) [path_name p]
                    \<mapsto> RegularFile c)\<rparr>))"
proof -
  have src: "fs1 p = Some (RegularFile c)"
    using makedirs_keeps_regular [OF assms(2) assms(1)] .
  show ?thesis
    using assms(2,3) src
    by (simp add: move_file_def Let_def path_exists_def shutil_move_def os_rename_def)
qed

lemma move_to_error_effect:
  assumes "files st p = Some (RegularFile c)"
    and "makedirs (error_folder e p) (files st) = Inr fs1"
    and "fs1 (os_path_join (error_folder e p) [path_name p]) = None"
    and "fs1 (os_path_join (error_folder e p) [path_name p] @ ''.error'') \<noteq> Some Directory"
  shows "move_to_error e p msg st =
           (Returned,
            log_msg DEBUG
              (''Moved '' @ p @ '' to '' @ os_path_join (error_folder e p) [path_name p])
              (st\<lparr>files := ((fs1(p := None))
                   (os_path_join (error_folder e p) [path_name p] \<mapsto> RegularFile c))
                   (os_path_join (error_folder e p) [path_name p] @ ''.error''
                      \<mapsto> RegularFile (error_text e st msg)),
                 ticks := ticks st + 1\<rparr>))"
proof -
  let ?d = "os_path_join (error_folder e p) [path_name p]"
  let ?fs2 = "(fs1(p := None))(?d \<mapsto> RegularFile c)"
  have src: "fs1 p = Some (RegularFile c)"
    using makedirs_keeps_regular [OF assms(2) assms(1)] .
  have mv: "move_file e p ERROR_FOLDER_NAME (error_username p) st =
              (Returned, log_msg DEBUG (''Moved '' @ p @ '' to '' @ ?d) (st\<lparr>files := ?fs2\<rparr>))"
    using move_file_plain [of st p c e ERROR_FOLDER_NAME "error_username p" fs1] assms(1,2,3)
    by (simp add: error_folder_def)
  have again: "makedirs (error_folder e p) ?fs2 = Inr ?fs2"
    using makedirs_again [OF assms(2) assms(3) src] .
  have dest: "os_path_join (error_folder e p) [path_name p @ ''.error''] = ?d @ ''.error''"
    by (simp add: os_path_join_def join2_error_suffix)
  have wr: "write_file (?d @ ''.error'') tx ?fs2 = Inr (?fs2(?d @ ''.error'' \<mapsto> RegularFile tx))" for tx
    using assms(4) by (auto simp: write_file_def split: option.splits node.splits)
  show ?thesis
    unfolding move_to_error_def Let_def mv
    using again dest wr
    by (simp add: error_folder_def [symmetric] log_msg_def error_text_def)
qed

subsection \<open>The example installation\<close>

lemmas routing_defs =
  process_file_def import_workout_def move_to_processed_def move_to_error_def move_file_def
  makedirs_def is_regular_def path_exists_def shutil_move_def os_rename_def
  read_file_def write_file_def log_msg_def Let_def

lemma example_strftime: "strftime (clock example_env n) = ''20261104_120030''"
  by (simp add: example_env_def example_clock_def strftime_def zero_pad_def str_nat.simps)

lemma example_isoformat: "isoformat (clock example_env n) = ''2026-11-04T12:00:30+00:00''"
  by (simp add: example_env_def example_clock_def isoformat_def zero_pad_def str_nat.simps)

lemma example_tables:
  "upload_folder example_env = ''/data''"
  "sport_table example_env 1 = Some ''Cycling''"
  "sport_table example_env 2 = Some ''Running''"
  "sport_table example_env 3 = None"
  "service example_env usr sport_id filename content
     = Result [\<lparr>short_id = ''w1'', sport_label = ''Cycling''\<rparr>] ''{}''"
  "allowed_extensions example_env = [''fit'', ''gpx'', ''kml'', ''kmz'', ''tcx'']"
  by (simp_all add: example_env_def)

lemmas example_simps = example_strftime example_isoformat example_tables

subsection \<open>The path parser\<close>

lemma parse_file_path_at:
  assumes "parts p = pre @ SINK_FOLDER_NAME # rem"
    and "SINK_FOLDER_NAME \<notin> set pre"
    and "2 \<le> length rem"
  shows "parse_file_path users p =
           Inr (users (rem ! 0),
                if length rem = 3
                then (case py_int (rem ! 1) of Some n \<Rightarrow> n | None \<Rightarrow> DEFAULT_SPORT_ID)
                else DEFAULT_SPORT_ID)"
  using assms(3)
  by (simp add: parse_file_path_def assms(1) index_of_first [OF assms(2)] Let_def
      split: option.splits)

lemma error_username_at:
  assumes "parts p = pre @ SINK_FOLDER_NAME # rem" and "SINK_FOLDER_NAME \<notin> set pre"
  shows "error_username p = (if rem = [] then ''unknown'' else rem ! 0)"
  by (simp add: error_username_def assms(1) index_of_first [OF assms(2)] nth_append)

lemma error_username_absent:
  "SINK_FOLDER_NAME \<notin> set (parts p) \<Longrightarrow> error_username p = ''unknown''"
  by (simp add: error_username_def index_of_None_iff [THEN iffD2])

lemma parse_file_path_absent:
  "SINK_FOLDER_NAME \<notin> set (parts p) \<Longrightarrow>
   parse_file_path users p =
     Inl (ValueError ([CHR 0x27] @ SINK_FOLDER_NAME @ [CHR 0x27] @ '' not found in path''))"
  by (simp add: parse_file_path_def index_of_None_iff [THEN iffD2])

lemma parse_file_path_short:
  assumes "parts p = pre @ SINK_FOLDER_NAME # rem" and "SINK_FOLDER_NAME \<notin> set pre"
    and "length rem < 2"
  shows "parse_file_path users p =
     Inl (ValueError
       ''Invalid path structure. Expected: sink/username/file or sink/username/sport_id/file'')"
  using assms(3)
  by (simp add: parse_file_path_def assms(1) index_of_first [OF assms(2)])




text \<open>
  Claim C9, as the code has it. The parser reads no file, and what it returns is fixed
  by the path up to one lookup in the table of users: either it raises the same error for
  every table, or there are a user name and a category, fixed by the path, such that for
  every table it returns the table's entry for that name together with that category.
\<close>

theorem parse_file_path_determined:
  "(\<exists>e. \<forall>users. parse_file_path users p = Inl e)
   \<or> (\<exists>uname sport_id. \<forall>users. parse_file_path users p = Inr (users uname, sport_id))"
proof (cases "index_of SINK_FOLDER_NAME (parts p)")
  case None
  then show ?thesis by (simp add: parse_file_path_def)
next
  case (Some i)
  show ?thesis
  proof (cases "length (drop (i + 1) (parts p)) < 2")
    case True
    with Some show ?thesis by (simp add: parse_file_path_def)
  next
    case False
    define rp where "rp = drop (i + 1) (parts p)"
    define sid where "sid =
      (if length rp = 2 then DEFAULT_SPORT_ID
       else if length rp = 3 then
         (case py_int (rp ! 1) of Some n \<Rightarrow> n | None \<Rightarrow> DEFAULT_SPORT_ID)
       else DEFAULT_SPORT_ID)"
    have "\<forall>users. parse_file_path users p = Inr (users (rp ! 0), sid)"
      using Some False by (simp add: parse_file_path_def Let_def rp_def sid_def)
    then show ?thesis by blast
  qed
qed

text \<open>
  The parser does look the owner up: on the same path, a table that knows \<open>bob\<close> and
  a table that does not give different results.
\<close>

theorem parse_file_path_lookup_counterexample:
  "parse_file_path (map_of [(''bob'', \<lparr>username = ''bob'', suspended_at = None\<rparr>)])
       ''/data/sink/bob/x.fit''
     = Inr (Some \<lparr>username = ''bob'', suspended_at = None\<rparr>, 1)
   \<and> parse_file_path (map_of []) ''/data/sink/bob/x.fit'' = Inr (None, 1)"
  by (simp add: parse_file_path_def parts_def path_root_def SINK_FOLDER_NAME_def DEFAULT_SPORT_ID_def)

subsection \<open>Processing one file\<close>

lemma process_file_effect:
  assumes "process_file e p st = move_to_error e p msg st0"
    and "files st0 = files st" and "ticks st0 = ticks st"
    and "files st p = Some (RegularFile c)"
    and "makedirs (error_folder e p) (files st) = Inr fs1"
    and "fs1 (os_path_join (error_folder e p) [path_name p]) = None"
    and "fs1 (os_path_join (error_folder e p) [path_name p] @ ''.error'') \<noteq> Some Directory"
  shows "fst (process_file e p st) = Returned
     \<and> files (snd (process_file e p st)) p = None
     \<and> files (snd (process_file e p st)) (os_path_join (error_folder e p) [path_name p])
         = Some (RegularFile c)
     \<and> files (snd (process_file e p st)) (os_path_join (error_folder e p) [path_name p] @ ''.error'')
         = Some (RegularFile (error_text e st msg))"
proof -
  have "files st0 p = Some (RegularFile c)"
    and "makedirs (error_folder e p) (files st0) = Inr fs1"
    using assms(2,4,5) by simp_all
  note moved = move_to_error_effect [OF this assms(6,7), of msg]
  have "fs1 p = Some (RegularFile c)"
    using makedirs_keeps_regular [OF assms(5) assms(4)] .
  with assms(6) have nd: "p \<noteq> os_path_join (error_folder e p) [path_name p]"
    by auto
  have ns: "p \<noteq> os_path_join (error_folder e p) [path_name p] @ ''.error''"
    by (rule source_is_not_companion)
  show ?thesis
    unfolding assms(1) moved using assms(3) nd ns by (simp add: log_msg_def error_text_def)
qed

text \<open>
  Claim C2, as the code has it. Take a path on which the parser fails: the segment
  \<open>sink\<close> is absent, or fewer than two parts follow its first occurrence. Then
  \<^verbatim>\<open>_process_file\<close> logs the error and ends in \<^verbatim>\<open>_move_to_error\<close> with the text of the
  parser's exception. The folder below \<open>error\<close> is \<open>unknown\<close> when the segment is absent
  or nothing follows it; when exactly one part follows it, the folder is named after that
  part. When the file is a regular file, the folder can be made, no file of that name is
  there and the place of the companion file is not a directory, processing returns with
  the file gone from its old path and standing in that folder, and with the companion
  file, holding the exception's text, beside it.
\<close>

theorem process_file_unparsed_path:
  assumes "SINK_FOLDER_NAME \<notin> set (parts p)
           \<or> (parts p = pre @ SINK_FOLDER_NAME # rem \<and> SINK_FOLDER_NAME \<notin> set pre
              \<and> length rem < 2)"
  shows "(\<exists>ex. parse_file_path (user_table e) p = Inl ex
            \<and> process_file e p st =
                move_to_error e p (str_exn ex)
                  (log_msg ERROR (''Failed to parse file path: '' @ str_exn ex)
                    (log_msg INFO (''Processing file: '' @ p) st))
            \<and> (files st p = Some (RegularFile c)
                 \<and> makedirs (error_folder e p) (files st) = Inr fs1
                 \<and> fs1 (os_path_join (error_folder e p) [path_name p]) = None
                 \<and> fs1 (os_path_join (error_folder e p) [path_name p] @ ''.error'')
                     \<noteq> Some Directory
               \<longrightarrow> fst (process_file e p st) = Returned
                 \<and> files (snd (process_file e p st)) p = None
                 \<and> files (snd (process_file e p st))
                      (os_path_join (error_folder e p) [path_name p])
                     = Some (RegularFile c)
                 \<and> files (snd (process_file e p st))
                      (os_path_join (error_folder e p) [path_name p] @ ''.error'')
                     = Some (RegularFile (error_text e st (str_exn ex)))))
     \<and> error_folder e p =
         os_path_join (get_sink_folder e)
           [ERROR_FOLDER_NAME,
            if SINK_FOLDER_NAME \<in> set (parts p) \<and> length rem = 1 then rem ! 0
            else ''unknown'']"
proof -
  obtain ex where ex: "parse_file_path (user_table e) p = Inl ex"
    using assms parse_file_path_absent parse_file_path_short by blast
  have call: "process_file e p st =
                move_to_error e p (str_exn ex)
                  (log_msg ERROR (''Failed to parse file path: '' @ str_exn ex)
                    (log_msg INFO (''Processing file: '' @ p) st))"
    by (simp add: process_file_def ex)
  have name: "error_username p =
      (if SINK_FOLDER_NAME \<in> set (parts p) \<and> length rem = 1 then rem ! 0 else ''unknown'')"
  proof (cases "SINK_FOLDER_NAME \<in> set (parts p)")
    case False
    then show ?thesis by (simp add: error_username_absent)
  next
    case True
    with assms have dec: "parts p = pre @ SINK_FOLDER_NAME # rem"
      and first: "SINK_FOLDER_NAME \<notin> set pre" and short: "length rem < 2"
      by auto
    from short have "rem = [] \<or> length rem = 1"
      by (cases rem) auto
    then show ?thesis
      using True by (auto simp: error_username_at [OF dec first])
  qed
  show ?thesis
    using ex call name process_file_effect [OF call, of c fs1]
    by (simp add: log_msg_def error_folder_def)
qed

theorem process_file_unparsed_path_witness:
  "SINK_FOLDER_NAME \<notin> set (parts ''/tmp/in/x.fit'')
   \<and> parse_file_path (user_table example_env) ''/tmp/in/x.fit''
       = Inl (ValueError ([CHR 0x27] @ ''sink'' @ [CHR 0x27] @ '' not found in path''))
   \<and> error_folder example_env ''/tmp/in/x.fit'' = ''/data/sink/error/unknown''
   \<and> fst (process_file example_env ''/tmp/in/x.fit''
          (example_state [(''/tmp/in/x.fit'', RegularFile ''fit-bytes'')]))
       = Returned
   \<and> files (snd (process_file example_env ''/tmp/in/x.fit''
          (example_state [(''/tmp/in/x.fit'', RegularFile ''fit-bytes'')])))
         ''/data/sink/error/unknown/x.fit''
       = Some (RegularFile ''fit-bytes'')"
proof -
  let ?p = "''/tmp/in/x.fit''"
  let ?st = "example_state [(?p, RegularFile ''fit-bytes'')]"
  let ?fs1 = "foldl (\<lambda>f q. f(q \<mapsto> Directory)) (files ?st)
                (path_prefixes (error_folder example_env ?p))"
  let ?ex = "ValueError ([CHR 0x27] @ ''sink'' @ [CHR 0x27] @ '' not found in path'')"
  have a: "SINK_FOLDER_NAME \<notin> set (parts ?p)"
    by code_simp
  have px: "parse_file_path (user_table example_env) ?p = Inl ?ex"
    by code_simp
  have f: "error_folder example_env ?p = ''/data/sink/error/unknown''"
    by code_simp
  have h1: "files ?st ?p = Some (RegularFile ''fit-bytes'')"
    by code_simp
  have pp: "list_ex (is_regular (files ?st)) (path_prefixes (error_folder example_env ?p)) = False"
    by code_simp
  have h2: "makedirs (error_folder example_env ?p) (files ?st) = Inr ?fs1"
    unfolding makedirs_def pp by simp
  have h3: "?fs1 (os_path_join (error_folder example_env ?p) [path_name ?p]) = None"
    by code_simp
  have h4: "?fs1 (os_path_join (error_folder example_env ?p) [path_name ?p] @ ''.error'')
              \<noteq> Some Directory"
    by code_simp
  have eff: "fst (process_file example_env ?p ?st) = Returned
      \<and> files (snd (process_file example_env ?p ?st))
           (os_path_join (error_folder example_env ?p) [path_name ?p])
          = Some (RegularFile ''fit-bytes'')"
    using process_file_unparsed_path [of ?p "[]" "[]" example_env ?st "''fit-bytes''" ?fs1]
      a h1 h2 h3 h4
    by blast
  have j: "os_path_join (error_folder example_env ?p) [path_name ?p]
             = ''/data/sink/error/unknown/x.fit''"
    by code_simp
  show ?thesis
    using a px f eff unfolding j by simp
qed

text \<open>
  A file dropped in the sink folder itself has one part after \<open>sink\<close>, its own name:
  parsing fails, and the file goes to the folder \<open>error/x.fit\<close>, not to \<open>error/unknown\<close>.
\<close>

theorem process_file_unparsed_path_counterexample:
  "parse_file_path (user_table example_env) ''/data/sink/x.fit''
     = Inl (ValueError
         ''Invalid path structure. Expected: sink/username/file or sink/username/sport_id/file'')
   \<and> fst (process_file example_env ''/data/sink/x.fit''
          (example_state [(''/data/sink/x.fit'', RegularFile ''fit-bytes'')]))
       = Returned
   \<and> map (files (snd (process_file example_env ''/data/sink/x.fit''
          (example_state [(''/data/sink/x.fit'', RegularFile ''fit-bytes'')]))))
         [''/data/sink/error/x.fit/x.fit'', ''/data/sink/error/unknown/x.fit'',
          ''/data/sink/error/unknown'']
       = [Some (RegularFile ''fit-bytes''), None, None]"
proof -
  have paths:
    "parse_file_path (user_table example_env) ''/data/sink/x.fit''
       = Inl (ValueError
         ''Invalid path structure. Expected: sink/username/file or sink/username/sport_id/file'')"
    "error_username ''/data/sink/x.fit'' = ''x.fit''"
    "path_name ''/data/sink/x.fit'' = ''x.fit''"
    "get_sink_folder example_env = ''/data/sink''"
    "os_path_join ''/data/sink'' [ERROR_FOLDER_NAME, ''x.fit''] = ''/data/sink/error/x.fit''"
    "os_path_join ''/data/sink/error/x.fit'' [''x.fit''] = ''/data/sink/error/x.fit/x.fit''"
    "os_path_join ''/data/sink/error/x.fit'' [''x.fit.error'']
       = ''/data/sink/error/x.fit/x.fit.error''"
    "path_prefixes ''/data/sink/error/x.fit''
       = [''/data'', ''/data/sink'', ''/data/sink/error'', ''/data/sink/error/x.fit'']"
    by code_simp+
  show ?thesis
    by (simp add: routing_defs paths example_simps example_state_def)
qed




text \<open>
  Claim C4, as the code has it. Take a path that parses and whose owner, the first part
  that follows \<open>sink\<close>, is no user of the table. Then \<^verbatim>\<open>_process_file\<close> logs the error
  and ends in \<^verbatim>\<open>_move_to_error\<close> with the message \<open>Could not determine user\<close>, and the
  folder below \<open>error\<close> is named after that part. When the file is a regular file, the
  folder can be made, no file of that name is there and the place of the companion file is
  not a directory, processing returns with the file gone from its old path and standing in
  that folder, and with the companion file, holding that message, beside it.
\<close>

theorem process_file_unknown_owner:
  assumes "parts p = pre @ SINK_FOLDER_NAME # rem"
    and "SINK_FOLDER_NAME \<notin> set pre"
    and "2 \<le> length rem"
    and "user_table e (rem ! 0) = None"
  shows "process_file e p st =
           move_to_error e p ''Could not determine user''
             (log_msg ERROR (''Could not determine user for file: '' @ p)
               (log_msg INFO (''Processing file: '' @ p) st))
     \<and> error_folder e p = os_path_join (get_sink_folder e) [ERROR_FOLDER_NAME, rem ! 0]
     \<and> (files st p = Some (RegularFile c)
          \<and> makedirs (error_folder e p) (files st) = Inr fs1
          \<and> fs1 (os_path_join (error_folder e p) [path_name p]) = None
          \<and> fs1 (os_path_join (error_folder e p) [path_name p] @ ''.error'') \<noteq> Some Directory
        \<longrightarrow> fst (process_file e p st) = Returned
          \<and> files (snd (process_file e p st)) p = None
          \<and> files (snd (process_file e p st)) (os_path_join (error_folder e p) [path_name p])
              = Some (RegularFile c)
          \<and> files (snd (process_file e p st))
              (os_path_join (error_folder e p) [path_name p] @ ''.error'')
              = Some (RegularFile (error_text e st ''Could not determine user'')))"
proof -
  have call: "process_file e p st =
           move_to_error e p ''Could not determine user''
             (log_msg ERROR (''Could not determine user for file: '' @ p)
               (log_msg INFO (''Processing file: '' @ p) st))"
    using assms(4) by (simp add: process_file_def parse_file_path_at [OF assms(1-3)])
  have name: "error_folder e p = os_path_join (get_sink_folder e) [ERROR_FOLDER_NAME, rem ! 0]"
    using assms(3) by (auto simp: error_folder_def error_username_at [OF assms(1,2)])
  show ?thesis
    using call name process_file_effect [OF call, of c fs1]
    by (simp add: log_msg_def)
qed

theorem process_file_unknown_owner_witness:
  "parts ''/data/sink/unknownuser/x.tcx''
     = [''/'', ''data''] @ SINK_FOLDER_NAME # [''unknownuser'', ''x.tcx'']
   \<and> SINK_FOLDER_NAME \<notin> set [''/'', ''data'']
   \<and> 2 \<le> length [''unknownuser'', ''x.tcx'']
   \<and> user_table example_env ([''unknownuser'', ''x.tcx''] ! 0) = None
   \<and> error_folder example_env ''/data/sink/unknownuser/x.tcx'' = ''/data/sink/error/unknownuser''
   \<and> fst (process_file example_env ''/data/sink/unknownuser/x.tcx''
          (example_state [(''/data/sink/unknownuser/x.tcx'', RegularFile ''tcx-bytes'')]))
       = Returned
   \<and> files (snd (process_file example_env ''/data/sink/unknownuser/x.tcx''
          (example_state [(''/data/sink/unknownuser/x.tcx'', RegularFile ''tcx-bytes'')])))
         ''/data/sink/error/unknownuser/x.tcx''
       = Some (RegularFile ''tcx-bytes'')
   \<and> files (snd (process_file example_env ''/data/sink/unknownuser/x.tcx''
          (example_state [(''/data/sink/unknownuser/x.tcx'', RegularFile ''tcx-bytes'')])))
         ''/data/sink/error/unknownuser/x.tcx.error''
       = Some (RegularFile
           (''Timestamp: 2026-11-04T12:00:30+00:00'' @ [newline] @
            ''Error: Could not determine user'' @ [newline]))"
proof -
  let ?p = "''/data/sink/unknownuser/x.tcx''"
  let ?st = "example_state [(?p, RegularFile ''tcx-bytes'')]"
  let ?fs1 = "foldl (\<lambda>f q. f(q \<mapsto> Directory)) (files ?st) (path_prefixes (error_folder example_env ?p))"
  have a: "parts ?p = [''/'', ''data''] @ SINK_FOLDER_NAME # [''unknownuser'', ''x.tcx'']"
    by code_simp
  have b: "SINK_FOLDER_NAME \<notin> set [''/'', ''data'']"
    by code_simp
  have c: "2 \<le> length [''unknownuser'', ''x.tcx'']"
    by simp
  have d: "user_table example_env ([''unknownuser'', ''x.tcx''] ! 0) = None"
    by code_simp
  have f: "error_folder example_env ?p = ''/data/sink/error/unknownuser''"
    by code_simp
  have h1: "files ?st ?p = Some (RegularFile ''tcx-bytes'')"
    by code_simp
  have pp: "list_ex (is_regular (files ?st)) (path_prefixes (error_folder example_env ?p)) = False"
    by code_simp
  have h2: "makedirs (error_folder example_env ?p) (files ?st) = Inr ?fs1"
    unfolding makedirs_def pp by simp
  have h3: "?fs1 (os_path_join (error_folder example_env ?p) [path_name ?p]) = None"
    by code_simp
  have h4: "?fs1 (os_path_join (error_folder example_env ?p) [path_name ?p] @ ''.error'') \<noteq> Some Directory"
    by code_simp
  have eff: "fst (process_file example_env ?p ?st) = Returned
      \<and> files (snd (process_file example_env ?p ?st))
           (os_path_join (error_folder example_env ?p) [path_name ?p])
          = Some (RegularFile ''tcx-bytes'')
      \<and> files (snd (process_file example_env ?p ?st))
           (os_path_join (error_folder example_env ?p) [path_name ?p] @ ''.error'')
          = Some (RegularFile (error_text example_env ?st ''Could not determine user''))"
    using process_file_unknown_owner [OF a b c d, of ?st "''tcx-bytes''" ?fs1] h1 h2 h3 h4
    by blast
  have j: "os_path_join (error_folder example_env ?p) [path_name ?p]
             = ''/data/sink/error/unknownuser/x.tcx''"
    by code_simp
  have t: "error_text example_env ?st ''Could not determine user''
             = ''Timestamp: 2026-11-04T12:00:30+00:00'' @ [newline] @
               ''Error: Could not determine user'' @ [newline]"
    by (simp add: error_text_def example_simps)
  show ?thesis
    using a b d f eff unfolding j t by simp
qed

text \<open>
  For \<open>sink/unknownuser/x.tcx\<close> the companion file holds \<open>Could not determine user\<close>;
  the words \<open>owner not found\<close> are not in it.
\<close>

theorem process_file_unknown_owner_counterexample:
  "(case files (snd (process_file example_env ''/data/sink/unknownuser/x.tcx''
            (example_state [(''/data/sink/unknownuser/x.tcx'', RegularFile ''tcx-bytes'')])))
          ''/data/sink/error/unknownuser/x.tcx.error'' of
      Some (RegularFile t) \<Rightarrow>
        contains t ''Error: Could not determine user'' \<and> \<not> contains t ''owner not found''
    | Some Directory \<Rightarrow> False
    | None \<Rightarrow> False)"
proof -
  have paths:
    "parse_file_path (user_table example_env) ''/data/sink/unknownuser/x.tcx'' = Inr (None, 1)"
    "error_username ''/data/sink/unknownuser/x.tcx'' = ''unknownuser''"
    "path_name ''/data/sink/unknownuser/x.tcx'' = ''x.tcx''"
    "get_sink_folder example_env = ''/data/sink''"
    "os_path_join ''/data/sink'' [ERROR_FOLDER_NAME, ''unknownuser'']
       = ''/data/sink/error/unknownuser''"
    "os_path_join ''/data/sink/error/unknownuser'' [''x.tcx'']
       = ''/data/sink/error/unknownuser/x.tcx''"
    "os_path_join ''/data/sink/error/unknownuser'' [''x.tcx.error'']
       = ''/data/sink/error/unknownuser/x.tcx.error''"
    "path_prefixes ''/data/sink/error/unknownuser''
       = [''/data'', ''/data/sink'', ''/data/sink/error'', ''/data/sink/error/unknownuser'']"
    by code_simp+
  have words:
    "contains (''Timestamp: 2026-11-04T12:00:30+00:00'' @ [newline] @
               ''Error: Could not determine user'' @ [newline])
       ''Error: Could not determine user''"
    "\<not> contains (''Timestamp: 2026-11-04T12:00:30+00:00'' @ [newline] @
               ''Error: Could not determine user'' @ [newline])
       ''owner not found''"
    by code_simp+
  show ?thesis
    using words by (simp add: routing_defs paths example_simps example_state_def)
qed

subsection \<open>The event handler\<close>

text \<open>
  Claim C10. For every event that is not about a directory and whose path has an allowed
  extension, \<^verbatim>\<open>on_created\<close> does what \<^verbatim>\<open>_process_file\<close> does on the path of the event,
  wherever the path lies: the handler looks at nothing else in the path. The sweep, on
  the contrary, processes nothing of what lies below a directory \<open>processed\<close> or
  \<open>error\<close>. The witness is a file below \<open>processed\<close>.
\<close>

theorem on_created_no_exclusion:
  assumes "\<not> is_directory ev"
    and "extension_of (src_path ev) \<in> set (allowed_extensions e)"
  shows "on_created e ev st = process_file e (src_path ev) st
     \<and> (d = PROCESSED_FOLDER_NAME \<or> d = ERROR_FOLDER_NAME
        \<longrightarrow> process_existing_files e (DTree [] [(d, t)]) st = (Inr 0, st))"
  using assms by (auto simp: on_created_def process_existing_files_def)

theorem on_created_no_exclusion_witness:
  "\<not> is_directory \<lparr>is_directory = False, src_path = ''/data/sink/processed/bob/a.fit''\<rparr>
   \<and> extension_of (src_path \<lparr>is_directory = False, src_path = ''/data/sink/processed/bob/a.fit''\<rparr>)
       \<in> set (allowed_extensions example_env)
   \<and> on_created example_env
        \<lparr>is_directory = False, src_path = ''/data/sink/processed/bob/a.fit''\<rparr>
        (example_state [(''/data/sink/processed/bob/a.fit'', RegularFile ''fit-bytes'')])
       = process_file example_env ''/data/sink/processed/bob/a.fit''
           (example_state [(''/data/sink/processed/bob/a.fit'', RegularFile ''fit-bytes'')])
   \<and> process_existing_files example_env
        (DTree [] [(PROCESSED_FOLDER_NAME, DTree [] [(''bob'', DTree [''a.fit''] [])])])
        (example_state [(''/data/sink/processed/bob/a.fit'', RegularFile ''fit-bytes'')])
       = (Inr 0, example_state [(''/data/sink/processed/bob/a.fit'', RegularFile ''fit-bytes'')])"
proof -
  let ?ev = "\<lparr>is_directory = False, src_path = ''/data/sink/processed/bob/a.fit''\<rparr>"
  have a: "\<not> is_directory ?ev"
    by simp
  have b: "extension_of (src_path ?ev) \<in> set (allowed_extensions example_env)"
    by code_simp
  show ?thesis
    using on_created_no_exclusion [OF a b,
        of "example_state [(''/data/sink/processed/bob/a.fit'', RegularFile ''fit-bytes'')]"
           PROCESSED_FOLDER_NAME "DTree [] [(''bob'', DTree [''a.fit''] [])]"] a b
    by simp
qed

subsection \<open>Exceptions that leave the routing functions\<close>

text \<open>
  Claim C5 fails on the code. When a regular file stands where the folder of the owner
  should be made, \<^verbatim>\<open>os.makedirs\<close> raises in \<^verbatim>\<open>_move_file\<close>, outside the \<^verbatim>\<open>try\<close>, and
  the exception leaves \<^verbatim>\<open>_move_file\<close>, \<^verbatim>\<open>_move_to_error\<close> and \<^verbatim>\<open>_process_file\<close>.
\<close>

theorem move_file_raises:
  "fst (move_file example_env ''/data/sink/bob/a.fit'' ERROR_FOLDER_NAME ''bob''
          (example_state
             [(''/data/sink/bob/a.fit'', RegularFile ''fit-bytes''),
              (''/data/sink/error/bob'', RegularFile ''a stray file'')]))
     = Raised (OSError ''[Errno 20] Not a directory: /data/sink/error/bob'')
   \<and> fst (move_to_error example_env ''/data/sink/bob/a.fit'' ''some failure''
          (example_state
             [(''/data/sink/bob/a.fit'', RegularFile ''fit-bytes''),
              (''/data/sink/error/bob'', RegularFile ''a stray file'')]))
     = Raised (OSError ''[Errno 20] Not a directory: /data/sink/error/bob'')
   \<and> fst (process_file example_env ''/data/sink/bob/a.fit''
          (example_state
             [(''/data/sink/bob/a.fit'', RegularFile ''fit-bytes''),
              (''/data/sink/processed/bob'', RegularFile ''a stray file''),
              (''/data/sink/error/bob'', RegularFile ''a stray file'')]))
     = Raised (OSError ''[Errno 20] Not a directory: /data/sink/error/bob'')"
proof -
  have paths:
    "parse_file_path (user_table example_env) ''/data/sink/bob/a.fit''
       = Inr (Some \<lparr>username = ''bob'', suspended_at = None\<rparr>, 1)"
    "error_username ''/data/sink/bob/a.fit'' = ''bob''"
    "path_name ''/data/sink/bob/a.fit'' = ''a.fit''"
    "get_sink_folder example_env = ''/data/sink''"
    "os_path_join ''/data/sink'' [ERROR_FOLDER_NAME, ''bob''] = ''/data/sink/error/bob''"
    "os_path_join ''/data/sink'' [PROCESSED_FOLDER_NAME, ''bob''] = ''/data/sink/processed/bob''"
    "path_prefixes ''/data/sink/error/bob''
       = [''/data'', ''/data/sink'', ''/data/sink/error'', ''/data/sink/error/bob'']"
    "path_prefixes ''/data/sink/processed/bob''
       = [''/data'', ''/data/sink'', ''/data/sink/processed'', ''/data/sink/processed/bob'']"
    by code_simp+
  show ?thesis
    by (simp add: routing_defs paths example_simps example_state_def)
qed

subsection \<open>Two files of one name\<close>

text \<open>
  Claim C6 fails on the code. The folder \<open>processed/bob\<close> holds \<open>a.fit\<close> already. Two
  files named \<open>a.fit\<close> are moved there while the clock shows the same second: both get
  the name with that second, and the second file replaces the first, whose content is
  then nowhere.
\<close>

theorem move_file_overwrites:
  "map (files (snd (move_to_processed example_env ''/data/sink/bob/2/a.fit'' ''bob''
         (snd (move_to_processed example_env ''/data/sink/bob/1/a.fit'' ''bob''
           (example_state
              [(''/data/sink/processed/bob/a.fit'', RegularFile ''earlier''),
               (''/data/sink/bob/1/a.fit'', RegularFile ''first''),
               (''/data/sink/bob/2/a.fit'', RegularFile ''second'')]))))))
       [''/data/sink/processed/bob/a.fit'',
        ''/data/sink/processed/bob/a_20261104_120030.fit'',
        ''/data/sink/bob/1/a.fit'', ''/data/sink/bob/2/a.fit'']
     = [Some (RegularFile ''earlier''), Some (RegularFile ''second''), None, None]"
proof -
  have paths:
    "get_sink_folder example_env = ''/data/sink''"
    "os_path_join ''/data/sink'' [PROCESSED_FOLDER_NAME, ''bob''] = ''/data/sink/processed/bob''"
    "os_path_join ''/data/sink/processed/bob'' [''a.fit''] = ''/data/sink/processed/bob/a.fit''"
    "os_path_join ''/data/sink/processed/bob'' [''a_20261104_120030.fit'']
       = ''/data/sink/processed/bob/a_20261104_120030.fit''"
    "path_name ''/data/sink/bob/1/a.fit'' = ''a.fit''"
    "path_name ''/data/sink/bob/2/a.fit'' = ''a.fit''"
    "splitext ''a.fit'' = (''a'', ''.fit'')"
    "path_prefixes ''/data/sink/processed/bob''
      = [''/data'', ''/data/sink'', ''/data/sink/processed'', ''/data/sink/processed/bob'']"
    by code_simp+
  show ?thesis
    by (simp add: routing_defs paths example_simps example_state_def)
qed

subsection \<open>The companion file\<close>

text \<open>
  Claim C7, as the code has it. Suppose the move of \<^verbatim>\<open>_move_to_error\<close> has returned.
  Then \<^verbatim>\<open>_move_to_error\<close> returns, and apart from the companion file
  \<open>{folder}/{filename}.error\<close> it leaves every regular file as the move left it, and
  every path that is no prefix of the folder. When the folder can be made and no
  directory stands in the place of the companion file, the companion file holds
  \<open>Timestamp: <clock reading in ISO format>\<close>, a line feed, \<open>Error: <message>\<close> and a
  line feed, and nothing is logged; otherwise one warning is logged. The text has exactly
  these two lines when the message holds no line feed.
\<close>

theorem move_to_error_sidecar:
  assumes "move_file e p ERROR_FOLDER_NAME (error_username p) st = (Returned, st1)"
  shows "fst (move_to_error e p msg st) = Returned
   \<and> (\<forall>q. q \<noteq> os_path_join (error_folder e p) [path_name p @ ''.error'']
          \<and> (q \<notin> set (path_prefixes (error_folder e p)) \<or> is_regular (files st1) q)
        \<longrightarrow> files (snd (move_to_error e p msg st)) q = files st1 q)
   \<and> (if list_ex (is_regular (files st1)) (path_prefixes (error_folder e p))
          \<or> os_path_join (error_folder e p) [path_name p @ ''.error'']
               \<in> set (path_prefixes (error_folder e p))
          \<or> files st1 (os_path_join (error_folder e p) [path_name p @ ''.error''])
               = Some Directory
       then \<exists>ex. logged (snd (move_to_error e p msg st))
                   = logged st1 @ [(WARNING, ''Failed to write error file: '' @ str_exn ex)]
       else files (snd (move_to_error e p msg st))
              (os_path_join (error_folder e p) [path_name p @ ''.error''])
              = Some (RegularFile (error_text e st1 msg))
            \<and> logged (snd (move_to_error e p msg st)) = logged st1)
   \<and> (newline \<notin> set msg \<longrightarrow>
        text_lines (error_text e st1 msg)
          = [''Timestamp: '' @ isoformat (clock e (ticks st1)), ''Error: '' @ msg])"
proof -
  let ?folder = "error_folder e p"
  let ?side = "os_path_join ?folder [path_name p @ ''.error'']"
  let ?R = "move_to_error e p msg st"
  have lines: "newline \<notin> set msg \<longrightarrow>
        text_lines (error_text e st1 msg)
          = [''Timestamp: '' @ isoformat (clock e (ticks st1)), ''Error: '' @ msg]"
    by (simp add: error_text_lines)
  show ?thesis
  proof (cases "list_ex (is_regular (files st1)) (path_prefixes ?folder)")
    case True
    then have R: "?R = (Returned,
        log_msg WARNING (''Failed to write error file: '' @
           str_exn (OSError (''[Errno 20] Not a directory: '' @ ?folder)))
          (st1\<lparr>ticks := ticks st1 + 1\<rparr>))"
      using assms
      by (simp add: move_to_error_def Let_def makedirs_def error_folder_def)
    have warned: "\<exists>ex. logged (snd ?R)
        = logged st1 @ [(WARNING, ''Failed to write error file: '' @ str_exn ex)]"
      unfolding R by (rule exI [of _ "OSError (''[Errno 20] Not a directory: '' @ ?folder)"])
        (simp add: log_msg_def)
    have same: "files (snd ?R) q = files st1 q" for q
      unfolding R by (simp add: log_msg_def)
    have "fst ?R = Returned"
      unfolding R by simp
    with True lines warned same show ?thesis
      by simp
  next
    case False
    define fs1 where "fs1 = foldl (\<lambda>f q. f(q \<mapsto> Directory)) (files st1) (path_prefixes ?folder)"
    have mk: "makedirs ?folder (files st1) = Inr fs1"
      using False by (simp add: makedirs_def fs1_def)
    have fs1: "fs1 q = (if q \<in> set (path_prefixes ?folder) then Some Directory else files st1 q)"
      for q
      by (simp add: fs1_def foldl_mkdir_apply)
    have keep: "fs1 q = files st1 q"
      if "q \<notin> set (path_prefixes ?folder) \<or> is_regular (files st1) q" for q
      using that False by (auto simp: fs1 list_ex_iff)
    show ?thesis
    proof (cases "fs1 ?side = Some Directory")
      case True
      then have R: "?R = (Returned,
          log_msg WARNING (''Failed to write error file: '' @
             str_exn (OSError (''[Errno 21] Is a directory: '' @ ?side)))
            (st1\<lparr>ticks := ticks st1 + 1, files := fs1\<rparr>))"
        using assms mk
        by (simp add: move_to_error_def Let_def error_folder_def [symmetric] write_file_def)
      have cond: "?side \<in> set (path_prefixes ?folder) \<or> files st1 ?side = Some Directory"
        using True by (simp add: fs1 split: if_splits)
      have warned: "\<exists>ex. logged (snd ?R)
          = logged st1 @ [(WARNING, ''Failed to write error file: '' @ str_exn ex)]"
        unfolding R by (rule exI [of _ "OSError (''[Errno 21] Is a directory: '' @ ?side)"])
          (simp add: log_msg_def)
      have same: "files (snd ?R) q = fs1 q" for q
        unfolding R by (simp add: log_msg_def)
      have "fst ?R = Returned"
        unfolding R by simp
      with cond lines warned same keep show ?thesis
        by simp
    next
      case nd: False
      then have R: "?R = (Returned,
          st1\<lparr>ticks := ticks st1 + 1,
               files := fs1(?side \<mapsto> RegularFile (error_text e st1 msg))\<rparr>)"
        using assms mk
        by (auto simp: move_to_error_def Let_def error_folder_def [symmetric] write_file_def
            error_text_def split: option.splits node.splits)
      have cond: "\<not> (list_ex (is_regular (files st1)) (path_prefixes ?folder)
          \<or> ?side \<in> set (path_prefixes ?folder) \<or> files st1 ?side = Some Directory)"
        using nd False by (simp add: fs1 split: if_splits)
      show ?thesis
        using cond lines keep unfolding R by simp
    qed
  qed
qed

theorem move_to_error_sidecar_witness:
  "fst (move_file example_env ''/data/sink/ghost/a.fit'' ERROR_FOLDER_NAME
          (error_username ''/data/sink/ghost/a.fit'')
          (example_state [(''/data/sink/ghost/a.fit'', RegularFile ''fit-bytes'')]))
     = Returned
   \<and> fst (move_to_error example_env ''/data/sink/ghost/a.fit'' ''boom''
          (example_state [(''/data/sink/ghost/a.fit'', RegularFile ''fit-bytes'')]))
     = Returned
   \<and> files (snd (move_to_error example_env ''/data/sink/ghost/a.fit'' ''boom''
          (example_state [(''/data/sink/ghost/a.fit'', RegularFile ''fit-bytes'')])))
         ''/data/sink/error/ghost/a.fit''
     = Some (RegularFile ''fit-bytes'')
   \<and> files (snd (move_to_error example_env ''/data/sink/ghost/a.fit'' ''boom''
          (example_state [(''/data/sink/ghost/a.fit'', RegularFile ''fit-bytes'')])))
         ''/data/sink/error/ghost/a.fit.error''
     = Some (RegularFile
         (''Timestamp: 2026-11-04T12:00:30+00:00'' @ [newline] @ ''Error: boom'' @ [newline]))
   \<and> text_lines
        (''Timestamp: 2026-11-04T12:00:30+00:00'' @ [newline] @ ''Error: boom'' @ [newline])
     = [''Timestamp: 2026-11-04T12:00:30+00:00'', ''Error: boom'']"
proof -
  let ?p = "''/data/sink/ghost/a.fit''"
  let ?st = "example_state [(?p, RegularFile ''fit-bytes'')]"
  let ?mv = "move_file example_env ?p ERROR_FOLDER_NAME (error_username ?p) ?st"
  let ?st1 = "snd ?mv"
  let ?R = "move_to_error example_env ?p ''boom'' ?st"
  have paths:
    "error_username ?p = ''ghost''"
    "path_name ?p = ''a.fit''"
    "get_sink_folder example_env = ''/data/sink''"
    "os_path_join ''/data/sink'' [ERROR_FOLDER_NAME, ''ghost''] = ''/data/sink/error/ghost''"
    "os_path_join ''/data/sink/error/ghost'' [''a.fit''] = ''/data/sink/error/ghost/a.fit''"
    "path_prefixes ''/data/sink/error/ghost''
       = [''/data'', ''/data/sink'', ''/data/sink/error'', ''/data/sink/error/ghost'']"
    by code_simp+
  have folder: "error_folder example_env ?p = ''/data/sink/error/ghost''"
    by (simp add: error_folder_def paths)
  have side: "os_path_join ''/data/sink/error/ghost'' [path_name ?p @ ''.error'']
                = ''/data/sink/error/ghost/a.fit.error''"
    unfolding paths by code_simp
  have ret: "fst ?mv = Returned"
    by (simp add: routing_defs paths example_simps example_state_def)
  then have mv: "?mv = (Returned, ?st1)"
    by (simp add: prod_eq_iff)
  have moved: "files ?st1 ''/data/sink/error/ghost/a.fit'' = Some (RegularFile ''fit-bytes'')"
    by (simp add: routing_defs paths example_simps example_state_def)
  have cond: "\<not> (list_ex (is_regular (files ?st1)) (path_prefixes ''/data/sink/error/ghost'')
          \<or> ''/data/sink/error/ghost/a.fit.error''
               \<in> set (path_prefixes ''/data/sink/error/ghost'')
          \<or> files ?st1 ''/data/sink/error/ghost/a.fit.error'' = Some Directory)"
    by (simp add: routing_defs paths example_simps example_state_def)
  have tx: "error_text example_env ?st1 ''boom''
              = ''Timestamp: 2026-11-04T12:00:30+00:00'' @ [newline] @ ''Error: boom'' @ [newline]"
    by (simp add: error_text_def example_simps)
  have nl: "newline \<notin> set ''boom''"
    by code_simp
  note th = move_to_error_sidecar [OF mv, of "''boom''", unfolded folder side]
  from th have r1: "fst ?R = Returned"
    by blast
  from th moved have r2: "files (snd ?R) ''/data/sink/error/ghost/a.fit''
      = Some (RegularFile ''fit-bytes'')"
    by (simp add: is_regular_def)
  from th cond have r3: "files (snd ?R) ''/data/sink/error/ghost/a.fit.error''
      = Some (RegularFile (error_text example_env ?st1 ''boom''))"
    by presburger
  from th nl have r4: "text_lines (error_text example_env ?st1 ''boom'')
      = [''Timestamp: '' @ isoformat (clock example_env (ticks ?st1)), ''Error: '' @ ''boom'']"
    by blast
  show ?thesis
    using ret r1 r2 r3 [unfolded tx] r4 [unfolded tx example_isoformat] by simp
qed

text \<open>
  A message of two lines, as the text of an exception can be, gives a companion file of
  three lines.
\<close>

theorem move_to_error_sidecar_counterexample:
  "(case files (snd (move_to_error example_env ''/data/sink/ghost/a.fit''
                      (''boom'' @ [newline] @ ''trace'')
                      (example_state [(''/data/sink/ghost/a.fit'', RegularFile ''fit-bytes'')])))
          ''/data/sink/error/ghost/a.fit.error'' of
      Some (RegularFile t) \<Rightarrow>
        text_lines t = [''Timestamp: 2026-11-04T12:00:30+00:00'', ''Error: boom'', ''trace'']
    | Some Directory \<Rightarrow> False
    | None \<Rightarrow> False)"
proof -
  have paths:
    "error_username ''/data/sink/ghost/a.fit'' = ''ghost''"
    "path_name ''/data/sink/ghost/a.fit'' = ''a.fit''"
    "get_sink_folder example_env = ''/data/sink''"
    "os_path_join ''/data/sink'' [ERROR_FOLDER_NAME, ''ghost''] = ''/data/sink/error/ghost''"
    "os_path_join ''/data/sink/error/ghost'' [''a.fit''] = ''/data/sink/error/ghost/a.fit''"
    "os_path_join ''/data/sink/error/ghost'' [''a.fit.error'']
       = ''/data/sink/error/ghost/a.fit.error''"
    "path_prefixes ''/data/sink/error/ghost''
       = [''/data'', ''/data/sink'', ''/data/sink/error'', ''/data/sink/error/ghost'']"
    by code_simp+
  have lines: "text_lines (''Timestamp: 2026-11-04T12:00:30+00:00'' @ [newline] @
                  ''Error: '' @ (''boom'' @ [newline] @ ''trace'') @ [newline])
                = [''Timestamp: 2026-11-04T12:00:30+00:00'', ''Error: boom'', ''trace'']"
    by code_simp
  show ?thesis
    using lines by (simp add: routing_defs paths example_simps example_state_def)
qed

subsection \<open>The sweep\<close>

lemma run_files_append:
  "run_files e (xs @ ys) c st =
     (case run_files e xs c st of
        (Raised ex, c1, st1) \<Rightarrow> (Raised ex, c1, st1)
      | (Returned, c1, st1) \<Rightarrow> run_files e ys c1 st1)"
proof (induction xs arbitrary: c st)
  case Nil
  show ?case by simp
next
  case (Cons x xs)
  show ?case
  proof (cases "process_file e x (log_msg INFO (''Processing existing file: '' @ x) st)")
    case (Pair r st1)
    then show ?thesis using Cons by (cases r) simp_all
  qed
qed

lemma run_files_count:
  "run_files e ps c st = (Returned, n, st1) \<Longrightarrow> n = c + length ps"
proof (induction ps arbitrary: c st)
  case Nil
  then show ?case by simp
next
  case (Cons x xs)
  show ?case
  proof (cases "process_file e x (log_msg INFO (''Processing existing file: '' @ x) st)")
    case (Pair r st2)
    show ?thesis
    proof (cases r)
      case Returned
      with Pair Cons.prems have "run_files e xs (c + 1) st2 = (Returned, n, st1)" by simp
      from Cons.IH [OF this] show ?thesis by simp
    next
      case (Raised ex)
      with Pair Cons.prems show ?thesis by simp
    qed
  qed
qed

lemma sweep_files_run:
  "sweep_files e root fnames c st =
     run_files e
       (map (\<lambda>f. os_path_join root [f])
          (filter (\<lambda>f. extension_of f \<in> set (allowed_extensions e)) fnames)) c st"
proof (induction fnames arbitrary: c st)
  case Nil
  show ?case by simp
next
  case (Cons f fs)
  show ?case
  proof (cases "extension_of f \<in> set (allowed_extensions e)")
    case False
    then show ?thesis using Cons by simp
  next
    case True
    show ?thesis
    proof (cases "process_file e (os_path_join root [f])
                    (log_msg INFO (''Processing existing file: '' @ os_path_join root [f]) st)")
      case (Pair r st1)
      then show ?thesis using True Cons by (cases r) (simp_all add: Let_def)
    qed
  qed
qed

lemma all_files_chain:
  "\<forall>entry \<in> set (all_files chain root t). set chain \<subseteq> set (fst entry)"
  "\<forall>entry \<in> set (all_files_dirs chain root ds). set chain \<subseteq> set (fst entry)"
  by (induction chain root t and chain root ds rule: all_files_all_files_dirs.induct)
    (simp_all add: ball_Un)

lemma skipped_dir:
  assumes "d = PROCESSED_FOLDER_NAME \<or> d = ERROR_FOLDER_NAME"
  shows "filter (swept e) (all_files (chain @ [d]) root t) = []"
proof -
  have "\<not> swept e entry" if "entry \<in> set (all_files (chain @ [d]) root t)" for entry
  proof -
    from all_files_chain(1) that have "set (chain @ [d]) \<subseteq> set (fst entry)" by blast
    then have "d \<in> set (fst entry)" by simp
    with assms show ?thesis by (auto simp: swept_def split: prod.splits)
  qed
  then show ?thesis by (simp add: filter_empty_conv)
qed

lemma targets_append: "targets e (xs @ ys) = targets e xs @ targets e ys"
  by (simp add: targets_def)

lemma targets_files:
  assumes "PROCESSED_FOLDER_NAME \<notin> set chain" and "ERROR_FOLDER_NAME \<notin> set chain"
  shows "targets e (map (\<lambda>f. (chain, f, os_path_join root [f])) fnames) =
           map (\<lambda>f. os_path_join root [f])
             (filter (\<lambda>f. extension_of f \<in> set (allowed_extensions e)) fnames)"
  using assms by (induction fnames) (auto simp: targets_def swept_def)

lemma walk_run:
  "PROCESSED_FOLDER_NAME \<notin> set chain \<Longrightarrow> ERROR_FOLDER_NAME \<notin> set chain \<Longrightarrow>
   walk e root t c st = run_files e (targets e (all_files chain root t)) c st"
  "PROCESSED_FOLDER_NAME \<notin> set chain \<Longrightarrow> ERROR_FOLDER_NAME \<notin> set chain \<Longrightarrow>
   walk_dirs e root ds c st = run_files e (targets e (all_files_dirs chain root ds)) c st"
proof (induction e root t c st and e root ds c st arbitrary: chain and chain
    rule: walk_walk_dirs.induct)
  case (1 e root fnames dirs count st)
  show ?case
  proof (cases "sweep_files e root fnames count st")
    case (fields r c1 st1)
    show ?thesis
    proof (cases r)
      case Returned
      with fields have sw: "sweep_files e root fnames count st = (Returned, c1, st1)" by simp
      have "walk_dirs e root dirs c1 st1
              = run_files e (targets e (all_files_dirs chain root dirs)) c1 st1"
        using "1.IH" [OF sw [symmetric] refl refl "1.prems"] .
      then show ?thesis
        using sw "1.prems"
        by (simp add: targets_append run_files_append targets_files sweep_files_run [symmetric])
    next
      case (Raised ex)
      with fields show ?thesis
        using "1.prems"
        by (simp add: targets_append run_files_append targets_files sweep_files_run [symmetric])
    qed
  qed
next
  case (2 e root count st)
  show ?case by (simp add: targets_def)
next
  case (3 e root d t rest count st)
  show ?case
  proof (cases "d \<in> set [PROCESSED_FOLDER_NAME, ERROR_FOLDER_NAME]")
    case True
    then have skip: "targets e (all_files (chain @ [d]) (os_path_join root [d]) t) = []"
      using skipped_dir [of d e chain] by (auto simp: targets_def)
    show ?thesis
      using True "3.IH"(1) [OF True "3.prems"] skip
      by (simp add: targets_append)
  next
    case False
    then have ch: "PROCESSED_FOLDER_NAME \<notin> set (chain @ [d])" "ERROR_FOLDER_NAME \<notin> set (chain @ [d])"
      using "3.prems" by auto
    note inner = "3.IH"(2) [OF False ch]
    show ?thesis
    proof (cases "walk e (os_path_join root [d]) t count st")
      case (fields r c1 st1)
      show ?thesis
      proof (cases r)
        case Returned
        with fields have w: "walk e (os_path_join root [d]) t count st = (Returned, c1, st1)"
          by simp
        have "walk_dirs e root rest c1 st1
                = run_files e (targets e (all_files_dirs chain root rest)) c1 st1"
          using "3.IH"(3) [OF False w [symmetric] refl refl "3.prems"] .
        then show ?thesis
          using False w inner by (simp add: targets_append run_files_append)
      next
        case (Raised ex)
        with fields show ?thesis
          using False inner by (simp add: targets_append run_files_append)
      qed
    qed
  qed
qed

text \<open>
  Claim C8, as the code has it. The sweep hands to \<^verbatim>\<open>_process_file\<close>, in the order of
  the walk, exactly the files of the listing that have an allowed extension and no
  directory named \<open>processed\<close> or \<open>error\<close> anywhere on the way from the sink folder, so
  none below the sink folder's own \<open>processed\<close> and \<open>error\<close>. When no call raises, it
  returns the number of these files; otherwise the first exception leaves the sweep.
\<close>

theorem process_existing_files_sweep:
  "process_existing_files e tree st =
     (case run_files e (sweep_targets e tree) 0 st of
        (Raised ex, c, st1) \<Rightarrow> (Inl ex, st1)
      | (Returned, c, st1) \<Rightarrow> (Inr c, st1))
   \<and> (case fst (process_existing_files e tree st) of
        Inr n \<Rightarrow> n = length (sweep_targets e tree)
      | Inl ex \<Rightarrow> fst (run_files e (sweep_targets e tree) 0 st) = Raised ex)
   \<and> set (sweep_targets e tree) =
       {path. \<exists>chain fname.
          (chain, fname, path) \<in> set (all_files [] (get_sink_folder e) tree)
          \<and> extension_of fname \<in> set (allowed_extensions e)
          \<and> PROCESSED_FOLDER_NAME \<notin> set chain \<and> ERROR_FOLDER_NAME \<notin> set chain}"
proof -
  have w: "walk e (get_sink_folder e) tree 0 st = run_files e (sweep_targets e tree) 0 st"
    using walk_run(1) [of "[]" e "get_sink_folder e" tree 0 st]
    by (simp add: targets_def sweep_targets_def)
  have first: "process_existing_files e tree st =
     (case run_files e (sweep_targets e tree) 0 st of
        (Raised ex, c, st1) \<Rightarrow> (Inl ex, st1)
      | (Returned, c, st1) \<Rightarrow> (Inr c, st1))"
    by (simp add: process_existing_files_def w)
  have second: "(case fst (process_existing_files e tree st) of
        Inr n \<Rightarrow> n = length (sweep_targets e tree)
      | Inl ex \<Rightarrow> fst (run_files e (sweep_targets e tree) 0 st) = Raised ex)"
  proof (cases "run_files e (sweep_targets e tree) 0 st")
    case (fields r c st1)
    show ?thesis
    proof (cases r)
      case Returned
      with fields run_files_count [of e "sweep_targets e tree" 0 st c st1]
      show ?thesis unfolding first by simp
    next
      case (Raised ex)
      with fields show ?thesis unfolding first by simp
    qed
  qed
  have third: "set (sweep_targets e tree) =
       {path. \<exists>chain fname.
          (chain, fname, path) \<in> set (all_files [] (get_sink_folder e) tree)
          \<and> extension_of fname \<in> set (allowed_extensions e)
          \<and> PROCESSED_FOLDER_NAME \<notin> set chain \<and> ERROR_FOLDER_NAME \<notin> set chain}"
    by (force simp: sweep_targets_def targets_def swept_def image_iff)
  from first second third show ?thesis by blast
qed

theorem process_existing_files_sweep_witness:
  "sweep_targets example_env
      (DTree [''readme.txt'']
         [(''processed'', DTree [''stray.fit''] []),
          (''bob'', DTree [''a.fit'', ''notes.txt''] [])])
     = [''/data/sink/bob/a.fit'']
   \<and> fst (process_existing_files example_env
          (DTree [''readme.txt'']
             [(''processed'', DTree [''stray.fit''] []),
              (''bob'', DTree [''a.fit'', ''notes.txt''] [])])
          (example_state
             [(''/data/sink/readme.txt'', RegularFile ''text''),
              (''/data/sink/processed/stray.fit'', RegularFile ''stray''),
              (''/data/sink/bob/a.fit'', RegularFile ''fit-bytes''),
              (''/data/sink/bob/notes.txt'', RegularFile ''notes'')]))
       = Inr 1"
proof -
  let ?tree = "DTree [''readme.txt'']
         [(''processed'', DTree [''stray.fit''] []),
          (''bob'', DTree [''a.fit'', ''notes.txt''] [])]"
  let ?st = "example_state
             [(''/data/sink/readme.txt'', RegularFile ''text''),
              (''/data/sink/processed/stray.fit'', RegularFile ''stray''),
              (''/data/sink/bob/a.fit'', RegularFile ''fit-bytes''),
              (''/data/sink/bob/notes.txt'', RegularFile ''notes'')]"
  have t: "sweep_targets example_env ?tree = [''/data/sink/bob/a.fit'']"
    by code_simp
  have paths:
    "parse_file_path (user_table example_env) ''/data/sink/bob/a.fit''
       = Inr (Some \<lparr>username = ''bob'', suspended_at = None\<rparr>, 1)"
    "path_name ''/data/sink/bob/a.fit'' = ''a.fit''"
    "get_sink_folder example_env = ''/data/sink''"
    "os_path_join ''/data/sink'' [PROCESSED_FOLDER_NAME, ''bob''] = ''/data/sink/processed/bob''"
    "os_path_join ''/data/sink/processed/bob'' [''a.fit''] = ''/data/sink/processed/bob/a.fit''"
    "path_prefixes ''/data/sink/processed/bob''
       = [''/data'', ''/data/sink'', ''/data/sink/processed'', ''/data/sink/processed/bob'']"
    by code_simp+
  have r: "fst (process_file example_env ''/data/sink/bob/a.fit''
             (log_msg INFO (''Processing existing file: '' @ ''/data/sink/bob/a.fit'') ?st))
           = Returned"
    by (simp add: routing_defs paths example_simps example_state_def)
  have "process_existing_files example_env ?tree ?st =
     (case run_files example_env [''/data/sink/bob/a.fit''] 0 ?st of
        (Raised ex, c, st1) \<Rightarrow> (Inl ex, st1)
      | (Returned, c, st1) \<Rightarrow> (Inr c, st1))"
    using process_existing_files_sweep [of example_env ?tree ?st] unfolding t by blast
  then have "fst (process_existing_files example_env ?tree ?st) = Inr 1"
    using r by (simp split: prod.splits outcome.splits)
  with t show ?thesis by blast
qed

text \<open>
  The file \<open>sink/alice/error/run.gpx\<close> has an allowed extension and lies below neither
  \<open>sink/processed\<close> nor \<open>sink/error\<close>; the sweep passes it by and returns 0.
\<close>

theorem process_existing_files_sweep_counterexample:
  "extension_of ''run.gpx'' \<in> set (allowed_extensions example_env)
   \<and> process_existing_files example_env
       (DTree [] [(''alice'', DTree [] [(''error'', DTree [''run.gpx''] [])])])
       (example_state [(''/data/sink/alice/error/run.gpx'', RegularFile ''gpx-bytes'')])
     = (Inr 0, example_state [(''/data/sink/alice/error/run.gpx'', RegularFile ''gpx-bytes'')])"
proof -
  have "extension_of ''run.gpx'' \<in> set (allowed_extensions example_env)"
    by code_simp
  then show ?thesis
    by (simp add: process_existing_files_def ERROR_FOLDER_NAME_def PROCESSED_FOLDER_NAME_def)
qed

end
